theory Spec2Isabelle
  imports Main "HOL-Library.Word"
begin

unbundle bit_operations_syntax

section \<open>The environment: errors, paths, the file system, open files\<close>

text \<open>
  The package \<^verbatim>\<open>contentaddressable\<close> (file.go) writes a stream to a staging file,
  hashes it on the way, and renames the staging file to its content-addressed name in
  \<^verbatim>\<open>Accept\<close>. Everything it does goes through the Go standard library:
  \<^verbatim>\<open>filepath.Base\<close>, \<^verbatim>\<open>filepath.Dir\<close>, \<^verbatim>\<open>os.MkdirAll\<close>, \<^verbatim>\<open>os.OpenFile\<close>,
  \<^verbatim>\<open>(*os.File).Write\<close>, \<^verbatim>\<open>(*os.File).Close\<close>, \<^verbatim>\<open>os.Stat\<close>, \<^verbatim>\<open>os.Rename\<close>,
  \<^verbatim>\<open>os.RemoveAll\<close>, \<^verbatim>\<open>sha256\<close> and \<^verbatim>\<open>hex.EncodeToString\<close>. The library calls are
  modelled here as functions on an explicit \<open>world\<close>; the methods of \<^verbatim>\<open>File\<close> are
  then translated line by line on top of them.
\<close>

type_synonym byte = "8 word"
type_synonym path = string

text \<open>
  Go's \<^verbatim>\<open>error\<close> values. \<open>AlreadyClosed\<close> and \<open>HasData\<close> are the package's
  two variables; \<open>Errorf\<close> carries the message built by \<^verbatim>\<open>fmt.Errorf\<close>;
  \<open>ErrClosed\<close>, \<open>ErrNotExist\<close> and \<open>ErrExist\<close> are the errors of package os that
  depend on the state modelled here, and \<open>SysError n\<close> is any other error of a system
  call, by its number (5 input/output error, 13 permission denied, 20 not a directory,
  21 is a directory, 22 invalid argument, 28 no space left, ...).
\<close>

datatype error =
    AlreadyClosed
  | HasData
  | Errorf string
  | ErrClosed
  | ErrNotExist
  | ErrExist
  | SysError nat

subsection \<open>Paths\<close>

text \<open>
  Paths are those of a system whose separator is \<open>/\<close>. \<open>split_path\<close> cuts a path at
  every separator (as \<^verbatim>\<open>strings.Split(p, "/")\<close>), \<open>join_path\<close> puts the elements
  together again.
\<close>

fun split_path :: "path \<Rightarrow> string list" where
  "split_path [] = [[]]"
| "split_path (c # cs) =
     (if c = CHR ''/'' then [] # split_path cs
      else (case split_path cs of
              [] \<Rightarrow> [[c]]
            | x # xs \<Rightarrow> (c # x) # xs))"

fun join_path :: "string list \<Rightarrow> path" where
  "join_path [] = []"
| "join_path [x] = x"
| "join_path (x # y # ys) = x @ CHR ''/'' # join_path (y # ys)"

definition rooted :: "path \<Rightarrow> bool" where
  "rooted p = (case p of [] \<Rightarrow> False | c # _ \<Rightarrow> c = CHR ''/'')"

text \<open>
  \<^verbatim>\<open>filepath.Clean\<close>. Go reads the path element by element and writes to a buffer:
  an empty element and \<open>.\<close> are skipped; \<open>..\<close> removes the last element written, if
  there is one that is not itself \<open>..\<close>, is dropped at the root of a rooted path, and is
  written otherwise; any other element is written. The buffer is kept here as the list
  of the elements written, last one first. The result is the elements joined by
  separators, after a separator if the path is rooted, and \<open>.\<close> if that is empty.
\<close>

definition clean_step :: "bool \<Rightarrow> string list \<Rightarrow> string \<Rightarrow> string list" where
  "clean_step r st c =
     (if c = [] \<or> c = ''.'' then st
      else if c = ''..''
        then (if st \<noteq> [] \<and> hd st \<noteq> ''..'' then tl st
              else if r then st
              else ''..'' # st)
      else c # st)"

definition clean_stack :: "path \<Rightarrow> string list" where
  "clean_stack p = foldl (clean_step (rooted p)) [] (split_path p)"

definition render :: "bool \<Rightarrow> string list \<Rightarrow> path" where
  "render r st =
     (let out = (if r then ''/'' else []) @ join_path (rev st)
      in if out = [] then ''.'' else out)"

definition filepath_Clean :: "path \<Rightarrow> path" where
  "filepath_Clean p = render (rooted p) (clean_stack p)"

text \<open>
  An element is \<open>normal\<close> when \<^verbatim>\<open>filepath.Clean\<close> writes it as it is: it is not
  empty, has no separator in it, and is neither \<open>.\<close> nor \<open>..\<close>. \<open>clean_inv r S\<close>
  describes what \<^verbatim>\<open>filepath.Clean\<close> has written at any moment: elements that are not
  empty, have no separator and are not \<open>.\<close>, with the elements \<open>..\<close> at the very
  beginning of the path only, and none of them in a rooted path.
\<close>

definition normal :: "string \<Rightarrow> bool" where
  "normal c \<longleftrightarrow> c \<noteq> [] \<and> CHR ''/'' \<notin> set c \<and> c \<noteq> ''.'' \<and> c \<noteq> ''..''"

definition clean_inv :: "bool \<Rightarrow> string list \<Rightarrow> bool" where
  "clean_inv r S \<longleftrightarrow>
     (\<forall>c\<in>set S. c \<noteq> [] \<and> CHR ''/'' \<notin> set c \<and> c \<noteq> ''.'')
     \<and> (\<exists>n T. S = T @ replicate n ''..'' \<and> ''..'' \<notin> set T \<and> (r \<longrightarrow> n = 0))"

text \<open>
  \<^verbatim>\<open>filepath.Dir\<close>: the path up to and including its last separator, cleaned.
\<close>

definition dir_part :: "path \<Rightarrow> path" where
  "dir_part p = rev (dropWhile (\<lambda>c. c \<noteq> CHR ''/'') (rev p))"

definition filepath_Dir :: "path \<Rightarrow> path" where
  "filepath_Dir p = filepath_Clean (dir_part p)"

text \<open>
  \<^verbatim>\<open>filepath.Base\<close>: the empty path gives \<open>.\<close>, trailing separators are dropped, the
  last element is returned, and a path of separators only gives \<open>/\<close>.
\<close>

definition filepath_Base :: "path \<Rightarrow> string" where
  "filepath_Base p =
     (if p = [] then ''.''
      else
        (let q = rev (dropWhile (\<lambda>c. c = CHR ''/'') (rev p));
             r = rev (takeWhile (\<lambda>c. c \<noteq> CHR ''/'') (rev q))
         in if r = [] then ''/'' else r))"

text \<open>
  A path is written as a directory when it ends in a separator, in \<open>.\<close> or in \<open>..\<close>:
  the system then accepts only a directory at the end of it. A path ends in a separator
  when it is not empty and its last character is one.
\<close>

definition dir_form :: "path \<Rightarrow> bool" where
  "dir_form p = (let c = last (split_path p) in c = [] \<or> c = ''.'' \<or> c = ''..'')"

definition ends_in_separator :: "path \<Rightarrow> bool" where
  "ends_in_separator p = (p \<noteq> [] \<and> last p = CHR ''/'')"

text \<open>
  \<open>inside d k\<close>: the cleaned path \<open>k\<close> is the cleaned path \<open>d\<close> or lies below it.
\<close>

definition starts_with :: "string \<Rightarrow> string \<Rightarrow> bool" where
  "starts_with p k = (take (length p) k = p)"

definition inside :: "path \<Rightarrow> path \<Rightarrow> bool" where
  "inside d k = (k = d \<or> starts_with (if d = ''/'' then d else d @ ''/'') k)"

text \<open>
  The directories on the way to a directory, from the top down: the starting point
  (\<open>.\<close> or \<open>/\<close>), then one cleaned path for each further element.
\<close>

fun tails :: "'a list \<Rightarrow> 'a list list" where
  "tails [] = [[]]"
| "tails (x # xs) = (x # xs) # tails xs"

definition mkdir_chain :: "path \<Rightarrow> path list" where
  "mkdir_chain dir = map (render (rooted dir)) (rev (tails (clean_stack dir)))"

subsection \<open>The file system\<close>

text \<open>
  A system call can fail for reasons the model does not track (permissions, a full disk,
  a failing device). The world therefore carries a \<open>script\<close>: the \<open>k\<close>-th system call
  reads the \<open>k\<close>-th entry; \<open>None\<close> (or a script that has run out) lets the call take its
  normal course, \<open>Some (e, n)\<close> makes it fail with error \<open>e\<close>, and \<open>n\<close> says how far it
  got: for a write the number of bytes that still reached the file, for
  \<^verbatim>\<open>os.MkdirAll\<close> the number of directories on the way that it had visited.
  Quantifying over all scripts covers every pattern of such failures.

  What is found in the file system is a \<open>node\<close>: a regular file, by its inode, or a
  directory. The \<open>tree\<close> maps cleaned paths to nodes, and \<open>names W p\<close> is the node that
  the path \<open>p\<close> leads to: paths are told apart as \<^verbatim>\<open>filepath.Clean\<close> does it, by their
  spelling. Symbolic links, hard links and a second spelling of a directory through
  \<open>..\<close> and its own name are outside this model; so is the working directory, which
  is the entry \<open>.\<close> like any other. The empty path leads nowhere. \<open>data\<close> is the
  content of each inode.
\<close>

datatype node = Reg nat | Directory

type_synonym fault = "error \<times> nat"

record world =
  tree :: "path \<rightharpoonup> node"
  data :: "nat \<Rightarrow> byte list"
  next_ino :: nat
  script :: "fault option list"

definition next_fault :: "world \<Rightarrow> fault option \<times> world" where
  "next_fault W =
     (case script W of
        [] \<Rightarrow> (None, W)
      | x # xs \<Rightarrow> (x, W\<lparr>script := xs\<rparr>))"

definition names :: "world \<Rightarrow> path \<Rightarrow> node option" where
  "names W p = (if p = [] then None else tree W (filepath_Clean p))"

text \<open>
  Looking a path up: nothing there, a directory, or a regular file, which a path written
  as a directory does not accept (error 20, not a directory).
\<close>

definition resolve :: "world \<Rightarrow> path \<Rightarrow> error + node" where
  "resolve W p =
     (case names W p of
        None \<Rightarrow> Inl ErrNotExist
      | Some Directory \<Rightarrow> Inr Directory
      | Some (Reg i) \<Rightarrow> if dir_form p then Inl (SysError 20) else Inr (Reg i))"

text \<open>Something is found at the path.\<close>

definition found :: "world \<Rightarrow> path \<Rightarrow> bool" where
  "found W p = (case resolve W p of Inl _ \<Rightarrow> False | Inr _ \<Rightarrow> True)"

definition is_reg :: "node option \<Rightarrow> bool" where
  "is_reg x = (case x of Some (Reg _) \<Rightarrow> True | _ \<Rightarrow> False)"

text \<open>
  An \<^verbatim>\<open>*os.File\<close>: the name it was opened with (\<^verbatim>\<open>f.Name()\<close>), the inode its
  descriptor refers to, and whether \<^verbatim>\<open>Close\<close> has been called on it. The writer is the
  only owner of its \<^verbatim>\<open>*os.File\<close>, so the object is stored in the writer and every
  function that mutates it returns the updated copy.
\<close>

record os_File =
  f_name :: path
  f_ino :: nat
  f_closed :: bool

text \<open>
  \<^verbatim>\<open>os.MkdirAll(dir, 0755)\<close> makes \<open>dir\<close> and every directory on the way to it that is
  not there yet. It fails (error 20) when a regular file is in the way, then without
  having made anything below that file; \<open>blocked\<close> says that there is one. A failure from
  the script leaves the directories made up to then.
\<close>

definition blocked :: "world \<Rightarrow> path \<Rightarrow> bool" where
  "blocked W dir = list_ex (\<lambda>k. is_reg (tree W k)) (mkdir_chain dir)"

definition make_dirs :: "path list \<Rightarrow> (path \<rightharpoonup> node) \<Rightarrow> (path \<rightharpoonup> node)" where
  "make_dirs ks t = (\<lambda>k. if k \<in> set ks \<and> t k = None then Some Directory else t k)"

definition os_MkdirAll :: "path \<Rightarrow> world \<Rightarrow> error option \<times> world" where
  "os_MkdirAll dir W =
     (case next_fault W of
        (Some (e, n), W1) \<Rightarrow>
          (Some e,
           W1\<lparr>tree := make_dirs (takeWhile (\<lambda>k. \<not> is_reg (tree W1 k))
                                    (take n (mkdir_chain dir))) (tree W1)\<rparr>)
      | (None, W1) \<Rightarrow>
          if dir = [] then (Some ErrNotExist, W1)
          else if blocked W1 dir
          then (Some (SysError 20),
                W1\<lparr>tree := make_dirs (takeWhile (\<lambda>k. \<not> is_reg (tree W1 k))
                                         (mkdir_chain dir)) (tree W1)\<rparr>)
          else (None, W1\<lparr>tree := make_dirs (mkdir_chain dir) (tree W1)\<rparr>))"

text \<open>
  \<^verbatim>\<open>os.OpenFile(name, os.O_WRONLY|os.O_CREATE|os.O_EXCL, 0644)\<close>: fails if there is
  anything at the name, if the name is written as a directory (error 21), or if the
  directory of the name is missing or is a regular file; otherwise it links a new, empty
  inode under the name.
\<close>

definition os_OpenFile_excl :: "path \<Rightarrow> world \<Rightarrow> (error + os_File) \<times> world" where
  "os_OpenFile_excl p W =
     (case next_fault W of
        (Some (e, _), W1) \<Rightarrow> (Inl e, W1)
      | (None, W1) \<Rightarrow>
          if p = [] then (Inl ErrNotExist, W1)
          else
            (case names W1 p of
               Some _ \<Rightarrow> (Inl ErrExist, W1)
             | None \<Rightarrow>
                 if dir_form p then (Inl (SysError 21), W1)
                 else
                   (case names W1 (filepath_Dir p) of
                      None \<Rightarrow> (Inl ErrNotExist, W1)
                    | Some (Reg _) \<Rightarrow> (Inl (SysError 20), W1)
                    | Some Directory \<Rightarrow>
                        (Inr \<lparr>f_name = p, f_ino = next_ino W1, f_closed = False\<rparr>,
                         W1\<lparr>tree := (tree W1)(filepath_Clean p \<mapsto> Reg (next_ino W1)),
                            data := (data W1)(next_ino W1 := []),
                            next_ino := Suc (next_ino W1)\<rparr>))))"

text \<open>
  \<^verbatim>\<open>f.Write(p)\<close>: on a closed file nothing is written and \<open>ErrClosed\<close> is returned.
  Otherwise the bytes go to the end of the inode the descriptor refers to (the descriptor
  is the only writer of a file it created itself), all of them, or, when the write fails,
  the first \<open>n\<close> of them. Go returns a non-nil error whenever fewer than
  \<^verbatim>\<open>len(p)\<close> bytes were written.
\<close>

definition File_Write :: "os_File \<Rightarrow> byte list \<Rightarrow> world \<Rightarrow> (nat \<times> error option) \<times> world" where
  "File_Write f p W =
     (if f_closed f then ((0, Some ErrClosed), W)
      else
        (case next_fault W of
           (Some (e, n), W1) \<Rightarrow>
             ((min n (length p), Some e),
              W1\<lparr>data := (data W1)(f_ino f := data W1 (f_ino f) @ take n p)\<rparr>)
         | (None, W1) \<Rightarrow>
             ((length p, None),
              W1\<lparr>data := (data W1)(f_ino f := data W1 (f_ino f) @ p)\<rparr>)))"

text \<open>
  \<^verbatim>\<open>f.Close()\<close>: an error on a file that is closed already; otherwise the file is
  closed, also when the system call reports an error.
\<close>

definition File_Close :: "os_File \<Rightarrow> world \<Rightarrow> error option \<times> os_File \<times> world" where
  "File_Close f W =
     (if f_closed f then (Some ErrClosed, f, W)
      else
        (case next_fault W of
           (Some (e, _), W1) \<Rightarrow> (Some e, f\<lparr>f_closed := True\<rparr>, W1)
         | (None, W1) \<Rightarrow> (None, f\<lparr>f_closed := True\<rparr>, W1)))"

text \<open>
  \<^verbatim>\<open>os.Stat(name)\<close>, of which the code only looks at the error: it finds regular files
  and directories alike.
\<close>

definition os_Stat :: "path \<Rightarrow> world \<Rightarrow> error option \<times> world" where
  "os_Stat p W =
     (case next_fault W of
        (Some (e, _), W1) \<Rightarrow> (Some e, W1)
      | (None, W1) \<Rightarrow>
          (case resolve W1 p of
             Inl e \<Rightarrow> (Some e, W1)
           | Inr _ \<Rightarrow> (None, W1)))"

text \<open>
  \<^verbatim>\<open>os.Rename(oldpath, newpath)\<close>. The node at \<open>oldpath\<close>, with all that is below it,
  moves to \<open>newpath\<close> in one step, and a regular file that is at \<open>newpath\<close> is replaced.
  Go refuses a \<open>newpath\<close> that is a directory other than \<open>oldpath\<close> itself
  (\<open>ErrExist\<close>); the system refuses to put a directory in the place of a regular file or
  a regular file under a name written as a directory (error 20), to move a directory
  below itself (error 22), and a \<open>newpath\<close> whose directory is missing. A failed rename
  changes nothing.
\<close>

definition move_tree :: "(path \<rightharpoonup> node) \<Rightarrow> path \<Rightarrow> path \<Rightarrow> (path \<rightharpoonup> node)" where
  "move_tree t old new =
     (\<lambda>k. if inside new k then t (old @ drop (length new) k)
          else if inside old k then None
          else t k)"

definition os_Rename :: "path \<Rightarrow> path \<Rightarrow> world \<Rightarrow> error option \<times> world" where
  "os_Rename old new W =
     (case next_fault W of
        (Some (e, _), W1) \<Rightarrow> (Some e, W1)
      | (None, W1) \<Rightarrow>
          (case resolve W1 old of
             Inl e \<Rightarrow> (Some e, W1)
           | Inr n \<Rightarrow>
               (let moved = W1\<lparr>tree := move_tree (tree W1) (filepath_Clean old)
                                          (filepath_Clean new)\<rparr>
                in case names W1 new of
                     Some Directory \<Rightarrow>
                       if filepath_Clean new = filepath_Clean old then (None, W1)
                       else (Some ErrExist, W1)
                   | Some (Reg _) \<Rightarrow>
                       if n = Directory \<or> dir_form new then (Some (SysError 20), W1)
                       else (None, moved)
                   | None \<Rightarrow>
                       if new = [] then (Some ErrNotExist, W1)
                       else
                         (case names W1 (filepath_Dir new) of
                            None \<Rightarrow> (Some ErrNotExist, W1)
                          | Some (Reg _) \<Rightarrow> (Some (SysError 20), W1)
                          | Some Directory \<Rightarrow>
                              if n = Directory
                              then (if inside (filepath_Clean old) (filepath_Clean new)
                                    then (Some (SysError 22), W1)
                                    else (None, moved))
                              else (if dir_form new then (Some (SysError 20), W1)
                                    else (None, moved))))))"

text \<open>
  \<^verbatim>\<open>os.RemoveAll(path)\<close> removes the path and everything below it. There is no error
  when nothing is at the path, and for the empty path Go returns nil at once.
\<close>

definition os_RemoveAll :: "path \<Rightarrow> world \<Rightarrow> error option \<times> world" where
  "os_RemoveAll p W =
     (if p = [] then (None, W)
      else
        (case next_fault W of
           (Some (e, _), W1) \<Rightarrow> (Some e, W1)
         | (None, W1) \<Rightarrow>
             (None, W1\<lparr>tree := (\<lambda>k. if inside (filepath_Clean p) k then None
                                     else tree W1 k)\<rparr>)))"

text \<open>\<^verbatim>\<open>ioutil.ReadFile\<close>, as the tests use it to look at the result.\<close>

definition read_file :: "world \<Rightarrow> path \<Rightarrow> byte list option" where
  "read_file W p =
     (case resolve W p of
        Inr (Reg i) \<Rightarrow> Some (data W i)
      | _ \<Rightarrow> None)"

subsection \<open>Hexadecimal encoding\<close>

definition hextable :: string where
  "hextable = ''0123456789abcdef''"

fun hex_EncodeToString :: "byte list \<Rightarrow> string" where
  "hex_EncodeToString [] = []"
| "hex_EncodeToString (v # vs) =
     hextable ! unat (drop_bit 4 v) # hextable ! unat (v AND 0x0f) # hex_EncodeToString vs"

section \<open>The writer (file.go)\<close>

text \<open>
  The struct \<^verbatim>\<open>File\<close>. A nil \<^verbatim>\<open>tempFile\<close> is \<open>None\<close>. The \<^verbatim>\<open>hash.Hash\<close> is
  represented by the bytes written to it so far: \<^verbatim>\<open>hasher.Write(p)\<close> appends \<open>p\<close> and
  never fails, and \<^verbatim>\<open>hasher.Sum(nil)\<close> is the digest of all of them, computed by the
  hash function \<open>H\<close> (\<^verbatim>\<open>sha256\<close> in the code), which the model takes as a parameter.
\<close>

record File =
  Oid :: string
  filename :: path
  tempFilename :: path
  tempFile :: "os_File option"
  hasher :: "byte list"

definition DefaultSuffix :: string where
  "DefaultSuffix = ''-temp''"

definition NewWithSuffix :: "path \<Rightarrow> string \<Rightarrow> world \<Rightarrow> (error + File) \<times> world" where
  "NewWithSuffix fname suffix W =
     (let oid = filepath_Base fname;
          dir = filepath_Dir fname
      in case os_MkdirAll dir W of
           (Some err, W1) \<Rightarrow> (Inl err, W1)
         | (None, W1) \<Rightarrow>
             (let tempFname = fname @ suffix
              in case os_OpenFile_excl tempFname W1 of
                   (Inl err, W2) \<Rightarrow> (Inl err, W2)
                 | (Inr tf, W2) \<Rightarrow>
                     (Inr \<lparr>Oid = oid, filename = fname, tempFilename = tempFname,
                           tempFile = Some tf, hasher = []\<rparr>, W2)))"

definition NewFile :: "path \<Rightarrow> world \<Rightarrow> (error + File) \<times> world" where
  "NewFile fname W = NewWithSuffix fname DefaultSuffix W"

definition Closed :: "File \<Rightarrow> bool" where
  "Closed w = (if tempFile w = None then True else False)"

text \<open>
  \<^verbatim>\<open>Write\<close>: the hasher gets \<open>p\<close> first, then the staging file; the result is the
  result of the file's write.
\<close>

definition Write :: "File \<Rightarrow> byte list \<Rightarrow> world \<Rightarrow> (nat \<times> error option) \<times> File \<times> world" where
  "Write w p W =
     (if Closed w then ((0, Some AlreadyClosed), w, W)
      else
        (let w1 = w\<lparr>hasher := hasher w @ p\<rparr>;
             (r, W1) = File_Write (the (tempFile w1)) p W
         in (r, w1, W1)))"

text \<open>
  \<^verbatim>\<open>cleanupFile\<close>: the error of \<^verbatim>\<open>f.Close()\<close> is kept in \<open>err\<close> and returned at the
  end, unless \<^verbatim>\<open>os.RemoveAll\<close> fails; then that error is returned.
\<close>

definition cleanupFile :: "os_File \<Rightarrow> world \<Rightarrow> error option \<times> os_File \<times> world" where
  "cleanupFile f W =
     (let (err, f1, W1) = File_Close f W
      in case os_RemoveAll (f_name f1) W1 of
           (Some err2, W2) \<Rightarrow> (Some err2, f1, W2)
         | (None, W2) \<Rightarrow> (err, f1, W2))"

text \<open>
  \<^verbatim>\<open>Close\<close>: when \<^verbatim>\<open>cleanupFile\<close> fails, the method returns before
  \<^verbatim>\<open>w.tempFile = nil\<close>, so the writer keeps its pointer to the \<^verbatim>\<open>*os.File\<close>, which
  \<^verbatim>\<open>cleanupFile\<close> has closed.
\<close>

definition Close :: "File \<Rightarrow> world \<Rightarrow> error option \<times> File \<times> world" where
  "Close w W =
     (case tempFile w of
        None \<Rightarrow> (None, w, W)
      | Some f \<Rightarrow>
          (case cleanupFile f W of
             (Some err, f1, W1) \<Rightarrow> (Some err, w\<lparr>tempFile := Some f1\<rparr>, W1)
           | (None, f1, W1) \<Rightarrow> (None, w\<lparr>tempFile := None\<rparr>, W1)))"

text \<open>
  \<^verbatim>\<open>Accept\<close>. \<^verbatim>\<open>fmt.Errorf\<close> with two \<^verbatim>\<open>%s\<close> verbs splices the two strings into
  the message. In the rename branch the result of \<^verbatim>\<open>w.tempFile.Close()\<close> is not
  looked at.
\<close>

definition mismatch_message :: "string \<Rightarrow> string \<Rightarrow> string" where
  "mismatch_message oid sig = ''Content mismatch.  Expected OID '' @ oid @ '', got '' @ sig"

definition Accept ::
  "(byte list \<Rightarrow> byte list) \<Rightarrow> File \<Rightarrow> world \<Rightarrow> (bool \<times> error option) \<times> File \<times> world" where
  "Accept H w W =
     (if Closed w then ((False, Some AlreadyClosed), w, W)
      else
        (let sig = hex_EncodeToString (H (hasher w))
         in if sig \<noteq> Oid w
            then ((False, Some (Errorf (mismatch_message (Oid w) sig))), w, W)
            else
              (case os_Stat (filename w) W of
                 (Some err, W1) \<Rightarrow>
                   (let (_, _, W2) = File_Close (the (tempFile w)) W1;
                        w1 = w\<lparr>tempFile := None\<rparr>;
                        (rerr, W3) = os_Rename (tempFilename w1) (filename w1) W2
                    in ((True, rerr), w1, W3))
               | (None, W1) \<Rightarrow>
                   (let (cerr, w1, W2) = Close w W1
                    in ((False, cerr), w1, W2)))))"

section \<open>Callers and example states\<close>

text \<open>
  A caller that writes a list of chunks in order, one \<^verbatim>\<open>Write\<close> per chunk, and keeps
  every result.
\<close>

fun write_chunks ::
  "File \<Rightarrow> byte list list \<Rightarrow> world \<Rightarrow> (nat \<times> error option) list \<times> File \<times> world" where
  "write_chunks w [] W = ([], w, W)"
| "write_chunks w (p # ps) W =
     (let (r, w1, W1) = Write w p W;
          (rs, w2, W2) = write_chunks w1 ps W1
      in (r # rs, w2, W2))"

text \<open>
  The whole life of a writer as the tests drive it: construct, write the chunks, accept.
  A \<open>run\<close> records what the caller saw and the state that is left.
\<close>

record run =
  run_writes :: "(nat \<times> error option) list"
  run_accept :: "bool \<times> error option"
  run_writer :: File
  run_world :: world

definition write_and_accept ::
  "(byte list \<Rightarrow> byte list) \<Rightarrow> path \<Rightarrow> string \<Rightarrow> byte list list \<Rightarrow> world \<Rightarrow> error + run" where
  "write_and_accept H fname suffix chunks W =
     (case NewWithSuffix fname suffix W of
        (Inl err, W1) \<Rightarrow> Inl err
      | (Inr w, W1) \<Rightarrow>
          (let (rs, w1, W2) = write_chunks w chunks W1;
               (r, w2, W3) = Accept H w1 W2
           in Inr \<lparr>run_writes = rs, run_accept = r, run_writer = w2, run_world = W3\<rparr>))"

text \<open>No system call is made to fail by the environment.\<close>

definition no_faults :: "world \<Rightarrow> bool" where
  "no_faults W = list_all (\<lambda>x. x = None) (script W)"

text \<open>
  Example states. The examples use a one-byte checksum in the place of SHA-256, so that the
  identifier of the bytes \<open>SUP\<close> of the tests is \<open>f8\<close>.
\<close>

definition checksum8 :: "byte list \<Rightarrow> byte list" where
  "checksum8 bs = [sum_list bs]"

definition sup_bytes :: "byte list" where
  "sup_bytes = [0x53, 0x55, 0x50]"

text \<open>
  An open writer for \<open>fname\<close> with the default suffix, on inode 0, that has been fed
  \<open>bs\<close>; and the world in which the directory of \<open>fname\<close> is there, the staging file
  holds \<open>bs\<close>, the regular files \<open>others\<close> (cleaned path and inode) exist as well and
  are empty, and the script is \<open>sc\<close>.
\<close>

definition open_writer :: "path \<Rightarrow> byte list \<Rightarrow> File" where
  "open_writer fname bs =
     \<lparr>Oid = filepath_Base fname, filename = fname, tempFilename = fname @ DefaultSuffix,
      tempFile = Some \<lparr>f_name = fname @ DefaultSuffix, f_ino = 0, f_closed = False\<rparr>,
      hasher = bs\<rparr>"

definition staged_world :: "path \<Rightarrow> byte list \<Rightarrow> (path \<times> nat) list \<Rightarrow> fault option list \<Rightarrow> world" where
  "staged_world fname bs others sc =
     \<lparr>tree = (make_dirs (mkdir_chain (filepath_Dir fname)) (map_option Reg \<circ> map_of others))
               (filepath_Clean (fname @ DefaultSuffix) \<mapsto> Reg 0),
      data = (\<lambda>_. [])(0 := bs), next_ino = 2, script = sc\<rparr>"

text \<open>
  A world without writers and without directories: the regular files \<open>files\<close> exist and
  are empty, nothing fails.
\<close>

definition empty_world :: "(path \<times> nat) list \<Rightarrow> world" where
  "empty_world files =
     \<lparr>tree = map_option Reg \<circ> map_of files, data = (\<lambda>_. []), next_ino = 2, script = []\<rparr>"

section \<open>Paths: splitting, cleaning, the element below a directory\<close>

text \<open>
  An element is \<open>normal\<close> when \<^verbatim>\<open>filepath.Clean\<close> writes it as it is: it is not
  empty, has no separator in it, and is neither \<open>.\<close> nor \<open>..\<close>.
\<close>

lemma split_path_not_Nil [simp]: "split_path p \<noteq> []"
  by (induction p) (auto split: list.splits)

lemma split_path_no_slash: "c \<in> set (split_path p) \<Longrightarrow> CHR ''/'' \<notin> set c"
  by (induction p arbitrary: c) (auto split: list.splits if_splits)

lemma split_path_append:
  "CHR ''/'' \<notin> set b \<Longrightarrow>
     split_path (d @ b) = butlast (split_path d) @ [last (split_path d) @ b]"
proof (induction d)
  case Nil
  then show ?case by (induction b) (auto split: list.splits)
next
  case (Cons c d)
  then show ?case
    by (cases "split_path d") (auto split: list.splits)
qed

lemma split_path_two:
  "CHR ''/'' \<in> set d \<Longrightarrow> \<exists>x y ys. split_path d = x # y # ys"
proof (induction d)
  case Nil
  then show ?case by simp
next
  case (Cons c d)
  show ?case
  proof (cases "c = CHR ''/''")
    case True
    then show ?thesis by (cases "split_path d") auto
  next
    case False
    with Cons obtain x y ys where "split_path d = x # y # ys" by auto
    with False show ?thesis by simp
  qed
qed

lemma split_path_last_Nil:
  "d = [] \<or> last d = CHR ''/'' \<Longrightarrow> last (split_path d) = []"
proof (induction d)
  case Nil
  then show ?case by simp
next
  case (Cons c d)
  show ?case
  proof (cases "d = []")
    case True
    with Cons.prems show ?thesis by simp
  next
    case False
    with Cons.prems have l: "last d = CHR ''/''" by simp
    then have "CHR ''/'' \<in> set d" using False last_in_set by metis
    then obtain x y ys where sp: "split_path d = x # y # ys"
      using split_path_two by blast
    have "last (split_path d) = []" using Cons.IH l by simp
    then show ?thesis using sp by simp
  qed
qed

lemma split_path_dir_component:
  assumes "d = [] \<or> last d = CHR ''/''" and "CHR ''/'' \<notin> set c"
  shows "split_path (d @ c) = butlast (split_path d) @ [c]"
    and "split_path d = butlast (split_path d) @ [[]]"
proof -
  have l: "last (split_path d) = []" using assms(1) by (rule split_path_last_Nil)
  show "split_path (d @ c) = butlast (split_path d) @ [c]"
    using split_path_append [OF assms(2), of d] l by simp
  show "split_path d = butlast (split_path d) @ [[]]"
    using l append_butlast_last_id [of "split_path d"] by simp
qed

lemma rooted_dir_component:
  assumes "c \<noteq> []" and "CHR ''/'' \<notin> set c"
  shows "rooted (d @ c) = rooted d"
  using assms by (cases d; cases c) (auto simp: rooted_def)

lemma clean_step_normal: "normal c \<Longrightarrow> clean_step r st c = c # st"
  by (auto simp: clean_step_def normal_def)

lemma clean_step_empty: "clean_step r st [] = st"
  by (simp add: clean_step_def)

text \<open>
  Cleaning a path \<open>d @ c\<close>, where \<open>d\<close> is empty or ends in a separator and \<open>c\<close> is a
  normal element, writes \<open>c\<close> after what cleaning \<open>d\<close> has written.
\<close>

lemma clean_stack_dir_component:
  assumes "d = [] \<or> last d = CHR ''/''" and "normal c"
  shows "clean_stack (d @ c) = c # clean_stack d" and "rooted (d @ c) = rooted d"
proof -
  have ns: "CHR ''/'' \<notin> set c" and ne: "c \<noteq> []" using assms(2) by (auto simp: normal_def)
  show r: "rooted (d @ c) = rooted d" using ne ns by (rule rooted_dir_component)
  have "clean_stack (d @ c)
          = foldl (clean_step (rooted d)) [] (butlast (split_path d) @ [c])"
    using split_path_dir_component(1) [OF assms(1) ns] r by (simp add: clean_stack_def)
  also have "\<dots> = c # foldl (clean_step (rooted d)) [] (butlast (split_path d))"
    using assms(2) by (simp add: clean_step_normal)
  also have "foldl (clean_step (rooted d)) [] (butlast (split_path d))
          = foldl (clean_step (rooted d)) [] (butlast (split_path d) @ [[]])"
    by (simp add: clean_step_empty)
  also have "\<dots> = clean_stack d"
    using split_path_dir_component(2) [OF assms(1) ns] by (simp add: clean_stack_def)
  finally show "clean_stack (d @ c) = c # clean_stack d" .
qed



text \<open>
  What \<^verbatim>\<open>filepath.Clean\<close> has written at any moment: elements that are not empty, have
  no separator and are not \<open>.\<close>, with the elements \<open>..\<close> at the very beginning of the
  path only, and none of them in a rooted path.
\<close>

lemma clean_inv_Nil: "clean_inv r []"
  by (auto simp: clean_inv_def intro: exI [of _ 0])

lemma clean_inv_normal: "clean_inv r S \<Longrightarrow> normal c \<Longrightarrow> clean_inv r (c # S)"
  unfolding clean_inv_def normal_def
  by (elim conjE exE) (rule conjI, simp, rule_tac x = n in exI, rule_tac x = "c # T" in exI, simp)

lemma clean_inv_step:
  assumes "clean_inv r S" and "CHR ''/'' \<notin> set c"
  shows "clean_inv r (clean_step r S c)"
proof -
  from assms(1) obtain n T where S: "S = T @ replicate n ''..''" and T: "''..'' \<notin> set T"
    and rn: "r \<longrightarrow> n = 0" and el: "\<forall>c\<in>set S. c \<noteq> [] \<and> CHR ''/'' \<notin> set c \<and> c \<noteq> ''.''"
    by (auto simp: clean_inv_def)
  consider "c = [] \<or> c = ''.''" | "c = ''..''" | "normal c"
    using assms(2) by (auto simp: normal_def)
  then show ?thesis
  proof cases
    case 1
    then show ?thesis using assms(1) by (auto simp: clean_step_def)
  next
    case 3
    then show ?thesis using assms(1) by (simp add: clean_step_normal clean_inv_normal)
  next
    case 2
    show ?thesis
    proof (cases T)
      case Nil
      show ?thesis
      proof (cases r)
        case True
        then have "S = []" using S Nil rn by simp
        then show ?thesis using 2 True by (simp add: clean_step_def clean_inv_Nil)
      next
        case False
        have "clean_step r S c = replicate (Suc n) ''..''"
          using 2 False S Nil by (cases n) (auto simp: clean_step_def)
        moreover have "clean_inv r (replicate (Suc n) ''..'')"
          unfolding clean_inv_def using False
          by (intro conjI exI [of _ "Suc n"] exI [of _ "[]"]) auto
        ultimately show ?thesis by simp
      qed
    next
      case (Cons t T')
      then have "clean_step r S c = T' @ replicate n ''..''"
        using 2 S T by (auto simp: clean_step_def)
      moreover have "clean_inv r (T' @ replicate n ''..'')"
        unfolding clean_inv_def using el S T rn Cons
        by (intro conjI exI [of _ n] exI [of _ T']) auto
      ultimately show ?thesis by simp
    qed
  qed
qed

lemma clean_inv_foldl:
  assumes "clean_inv r S" and "\<forall>c\<in>set cs. CHR ''/'' \<notin> set c"
  shows "clean_inv r (foldl (clean_step r) S cs)"
  using assms by (induction cs arbitrary: S) (auto intro: clean_inv_step)

lemma clean_inv_clean_stack: "clean_inv (rooted p) (clean_stack p)"
  unfolding clean_stack_def
  by (rule clean_inv_foldl [OF clean_inv_Nil]) (auto dest: split_path_no_slash)




text \<open>
  Cleaning a cleaned path gives the same path: the elements written are read back one by
  one.
\<close>

lemma split_path_single: "CHR ''/'' \<notin> set c \<Longrightarrow> split_path c = [c]"
  by (induction c) (auto split: list.splits)

lemma split_path_Cons_comp:
  "CHR ''/'' \<notin> set x \<Longrightarrow> split_path (x @ CHR ''/'' # y) = x # split_path y"
  by (induction x) (auto split: list.splits)

lemma split_join:
  assumes "cs \<noteq> []" and "\<forall>c\<in>set cs. CHR ''/'' \<notin> set c"
  shows "split_path (join_path cs) = cs"
  using assms
proof (induction cs rule: join_path.induct)
  case 1
  then show ?case by simp
next
  case (2 x)
  then show ?case by (simp add: split_path_single)
next
  case (3 x y ys)
  then show ?case by (simp add: split_path_Cons_comp)
qed


lemma foldl_clean_step_normal:
  "\<forall>c\<in>set cs. normal c \<Longrightarrow> foldl (clean_step r) st cs = rev cs @ st"
  by (induction cs arbitrary: st) (auto simp: clean_step_normal)

lemma foldl_clean_step_dotdots:
  "\<not> r \<Longrightarrow> foldl (clean_step r) (replicate m ''..'') (replicate n ''..'') = replicate (n + m) ''..''"
proof (induction n arbitrary: m)
  case 0
  then show ?case by simp
next
  case (Suc n)
  have "clean_step r (replicate m ''..'') ''..'' = replicate (Suc m) ''..''"
    using Suc.prems by (cases m) (auto simp: clean_step_def)
  then show ?case using Suc.IH [OF Suc.prems, of "Suc m"] by simp
qed

lemma foldl_rev_clean_inv:
  assumes "clean_inv r S"
  shows "foldl (clean_step r) [] (rev S) = S"
proof -
  from assms obtain n T where S: "S = T @ replicate n ''..''" and T: "''..'' \<notin> set T"
    and rn: "r \<longrightarrow> n = 0" and el: "\<forall>c\<in>set S. c \<noteq> [] \<and> CHR ''/'' \<notin> set c \<and> c \<noteq> ''.''"
    by (auto simp: clean_inv_def)
  have nT: "\<forall>c\<in>set (rev T). normal c"
    using el S T by (auto simp: normal_def)
  have dd: "foldl (clean_step r) [] (replicate n ''..'') = replicate n ''..''"
  proof (cases r)
    case True
    then show ?thesis using rn by simp
  next
    case False
    then show ?thesis using foldl_clean_step_dotdots [of r 0 n] by simp
  qed
  have "rev S = replicate n ''..'' @ rev T" using S by simp
  then have "foldl (clean_step r) [] (rev S)
               = foldl (clean_step r) (replicate n ''..'') (rev T)"
    using dd by simp
  also have "\<dots> = T @ replicate n ''..''"
    using foldl_clean_step_normal [OF nT] by simp
  finally show ?thesis using S by simp
qed

lemma clean_stack_render:
  assumes "clean_inv r S"
  shows "clean_stack (render r S) = S" and "rooted (render r S) = r"
proof -
  have el: "\<forall>c\<in>set (rev S). CHR ''/'' \<notin> set c" and ne: "\<forall>c\<in>set S. c \<noteq> []"
    using assms by (auto simp: clean_inv_def)
  have both: "clean_stack (render r S) = S \<and> rooted (render r S) = r"
  proof (cases r)
    case True
    have rd: "render r S = CHR ''/'' # join_path (rev S)"
      using True by (simp add: render_def)
    have ro: "rooted (render r S)" using rd by (simp add: rooted_def)
    show ?thesis
    proof (cases "S = []")
      case True
      then show ?thesis using rd ro \<open>r\<close> by (simp add: clean_stack_def clean_step_def)
    next
      case False
      then have "split_path (join_path (rev S)) = rev S"
        using el by (intro split_join) auto
      then have "clean_stack (render r S) = foldl (clean_step r) [] (rev S)"
        using rd ro \<open>r\<close> by (simp add: clean_stack_def clean_step_empty)
      then show ?thesis using foldl_rev_clean_inv [OF assms] ro \<open>r\<close> by simp
    qed
  next
    case False
    show ?thesis
    proof (cases "S = []")
      case True
      then show ?thesis using False
        by (simp add: render_def clean_stack_def clean_step_def rooted_def)
    next
      case nonempty: False
      then obtain c cs where rs: "rev S = c # cs" by (cases "rev S") auto
      have c: "c \<noteq> []" "CHR ''/'' \<notin> set c"
        using ne el rs by (metis list.set_intros(1) set_rev)+
      have jn: "join_path (rev S) \<noteq> []" "\<not> rooted (join_path (rev S))"
        using rs c by (cases cs; cases c; auto simp: rooted_def)+
      then have rd: "render r S = join_path (rev S)"
        using False by (simp add: render_def)
      have "split_path (join_path (rev S)) = rev S"
        using el nonempty by (intro split_join) auto
      then have "clean_stack (render r S) = foldl (clean_step r) [] (rev S)"
        using rd jn False by (simp add: clean_stack_def)
      then show ?thesis using foldl_rev_clean_inv [OF assms] rd jn False by simp
    qed
  qed
  show "clean_stack (render r S) = S" and "rooted (render r S) = r"
    using both by simp_all
qed





lemma render_inj:
  assumes "clean_inv r S" and "clean_inv r S'" and "render r S = render r S'"
  shows "S = S'"
proof -
  have "clean_stack (render r S) = clean_stack (render r S')"
    by (simp only: assms(3))
  then show ?thesis
    by (simp only: clean_stack_render(1) [OF assms(1)] clean_stack_render(1) [OF assms(2)])
qed






lemma Clean_dir_component:
  assumes "d = [] \<or> last d = CHR ''/''" and "normal c"
  shows "filepath_Clean (d @ c) = render (rooted d) (c # clean_stack d)"
  using clean_stack_dir_component [OF assms] by (simp add: filepath_Clean_def)



lemma Clean_component_neq:
  assumes "d = [] \<or> last d = CHR ''/''" and "normal c" and "normal (c @ s)" and "s \<noteq> []"
  shows "filepath_Clean (d @ c @ s) \<noteq> filepath_Clean (d @ c)"
proof
  let ?r = "rooted d" and ?S = "clean_stack d"
  assume "filepath_Clean (d @ c @ s) = filepath_Clean (d @ c)"
  then have "render ?r ((c @ s) # ?S) = render ?r (c # ?S)"
    using Clean_dir_component [OF assms(1,3)] Clean_dir_component [OF assms(1,2)] by simp
  moreover have inv: "clean_inv ?r ?S" by (rule clean_inv_clean_stack)
  ultimately have "(c @ s) # ?S = c # ?S"
    using render_inj [OF clean_inv_normal [OF inv assms(3)] clean_inv_normal [OF inv assms(2)]]
    by blast
  then show False using assms(4) by simp
qed




section \<open>System calls: what they leave unchanged\<close>

lemma names_cong: "tree W1 = tree W \<Longrightarrow> names W1 = names W"
  by (auto simp: names_def)

lemma resolve_cong: "names W1 = names W \<Longrightarrow> resolve W1 = resolve W"
  by (auto simp: resolve_def)

lemma read_file_cong:
  assumes "names W1 p = names W p" and "data W1 = data W"
  shows "read_file W1 p = read_file W p"
proof -
  have r: "resolve W1 p = resolve W p" using assms(1) by (simp add: resolve_def)
  show ?thesis
  proof (cases "resolve W p")
    case (Inl e)
    with r show ?thesis by (simp add: read_file_def)
  next
    case (Inr n)
    with r assms(2) show ?thesis by (cases n) (simp_all add: read_file_def)
  qed
qed

lemma names_Nil: "names W [] = None"
  by (simp add: names_def)

text \<open>
  Reading the script changes nothing but the script.
\<close>

lemma next_fault_frame:
  assumes "next_fault W = (x, W1)"
  shows "tree W1 = tree W" and "data W1 = data W" and "next_ino W1 = next_ino W"
    and "names W1 = names W"
proof -
  show t: "tree W1 = tree W"
    using assms by (auto simp: next_fault_def split: list.splits)
  show "data W1 = data W" and "next_ino W1 = next_ino W"
    using assms by (auto simp: next_fault_def split: list.splits)
  show "names W1 = names W" using t by (rule names_cong)
qed


lemma take_min_length: "take (min n (length p)) p = take n p"
  by (simp add: min_def)

lemma take_eq_self_iff: "n \<le> length p \<Longrightarrow> (p = take n p) = (n = length p)"
  by (metis length_take min.absorb2 take_all order_refl)

text \<open>
  A write touches only the inode of the file written, and adds the first \<open>n\<close> bytes of
  \<open>p\<close>, where \<open>n\<close> is the count it returns.
\<close>

lemma File_Write_frame:
  assumes "File_Write f p W = (r, W1)"
  shows "tree W1 = tree W" and "next_ino W1 = next_ino W"
    and "data W1 (f_ino f) = data W (f_ino f) @ take (fst r) p"
    and "fst r \<le> length p" and "snd r = None \<longrightarrow> fst r = length p"
  using assms
  by (auto simp: File_Write_def take_min_length split: if_splits prod.splits option.splits
           dest: next_fault_frame)

lemma File_Close_frame:
  assumes "File_Close f W = (e, f1, W1)"
  shows "tree W1 = tree W" and "data W1 = data W" and "next_ino W1 = next_ino W"
    and "f_name f1 = f_name f" and "f_ino f1 = f_ino f" and "f_closed f1"
  using assms
  by (auto simp: File_Close_def split: if_splits prod.splits option.splits
           dest: next_fault_frame)

lemma os_Stat_frame:
  assumes "os_Stat p W = (e, W1)"
  shows "tree W1 = tree W" and "data W1 = data W" and "next_ino W1 = next_ino W"
  using assms
  by (auto simp: os_Stat_def split: prod.splits option.splits sum.splits
           dest: next_fault_frame)

lemma os_Stat_ok_exists:
  assumes "os_Stat p W = (None, W1)"
  shows "names W p \<noteq> None"
  using assms
  by (auto simp: os_Stat_def resolve_def
           split: prod.splits option.splits sum.splits node.splits if_splits
           dest: next_fault_frame(4))

text \<open>
  A removal leaves every path alone that is neither the removed one nor below it.
\<close>

lemma os_RemoveAll_frame:
  assumes "os_RemoveAll p W = (e, W1)"
  shows "data W1 = data W" and "next_ino W1 = next_ino W"
    and "\<not> inside (filepath_Clean p) (filepath_Clean q) \<Longrightarrow> names W1 q = names W q"
    and "e = None \<Longrightarrow> names W1 p = None"
proof -
  show "data W1 = data W" and "next_ino W1 = next_ino W"
    using assms
    by (auto simp: os_RemoveAll_def split: if_splits prod.splits option.splits
             dest: next_fault_frame)
  show "names W1 q = names W q" if "\<not> inside (filepath_Clean p) (filepath_Clean q)"
    using assms that
    by (auto simp: os_RemoveAll_def names_def split: if_splits prod.splits option.splits
             dest: next_fault_frame(1))
  show "names W1 p = None" if "e = None"
    using assms that
    by (auto simp: os_RemoveAll_def names_def inside_def
             split: if_splits prod.splits option.splits)
qed

lemma os_RemoveAll_quiet:
  assumes "fst (next_fault W) = None"
  shows "fst (os_RemoveAll p W) = None"
  using assms by (auto simp: os_RemoveAll_def split: prod.splits option.splits)

text \<open>
  A rename that returns no error has found something at the old path and has put it at
  the new one.
\<close>

lemma os_Rename_ok:
  assumes "os_Rename old new W = (None, W1)"
  shows "names W1 new = names W old" and "names W old \<noteq> None" and "data W1 = data W"
proof -
  obtain V where nf: "next_fault W = (None, V)"
    using assms by (auto simp: os_Rename_def split: prod.splits option.splits)
  note fr = next_fault_frame [OF nf]
  obtain n where rs: "resolve V old = Inr n"
    using assms nf by (auto simp: os_Rename_def split: sum.splits)
  have old: "names V old \<noteq> None"
    using rs by (auto simp: resolve_def split: option.splits)
  then have old': "old \<noteq> []" using names_Nil by metis
  let ?moved = "V\<lparr>tree := move_tree (tree V) (filepath_Clean old) (filepath_Clean new)\<rparr>"
  have eq: "(case names V new of
               Some Directory \<Rightarrow>
                 if filepath_Clean new = filepath_Clean old then (None, V)
                 else (Some ErrExist, V)
             | Some (Reg _) \<Rightarrow>
                 if n = Directory \<or> dir_form new then (Some (SysError 20), V)
                 else (None, ?moved)
             | None \<Rightarrow>
                 if new = [] then (Some ErrNotExist, V)
                 else
                   (case names V (filepath_Dir new) of
                      None \<Rightarrow> (Some ErrNotExist, V)
                    | Some (Reg _) \<Rightarrow> (Some (SysError 20), V)
                    | Some Directory \<Rightarrow>
                        if n = Directory
                        then (if inside (filepath_Clean old) (filepath_Clean new)
                              then (Some (SysError 22), V)
                              else (None, ?moved))
                        else (if dir_form new then (Some (SysError 20), V)
                              else (None, ?moved)))) = (None, W1)"
    using assms nf rs by (simp add: os_Rename_def Let_def)
  have moved: "names ?moved new = names V old" if "new \<noteq> []"
    using that old' by (simp add: names_def move_tree_def inside_def)
  have "names W1 new = names V old \<and> data W1 = data V"
  proof (cases "names V new")
    case None
    with eq have "new \<noteq> []" by (auto split: if_splits)
    moreover from eq None have "W1 = ?moved"
      by (auto split: if_splits option.splits node.splits)
    ultimately show ?thesis using moved by simp
  next
    case (Some m)
    then have ne: "new \<noteq> []" using names_Nil by (metis option.distinct(1))
    show ?thesis
    proof (cases m)
      case (Reg j)
      with eq Some have "W1 = ?moved" by (auto split: if_splits)
      then show ?thesis using moved [OF ne] by simp
    next
      case Directory
      with eq Some have "W1 = V" and "filepath_Clean new = filepath_Clean old"
        by (auto split: if_splits)
      then show ?thesis using ne old' by (simp add: names_def)
    qed
  qed
  then show "names W1 new = names W old" and "data W1 = data W"
    using fr by simp_all
  show "names W old \<noteq> None" using old fr by simp
qed



section \<open>The methods, case by case\<close>

lemma cleanupFile_eq:
  assumes "File_Close f W = (cerr, f1, W1)" and "os_RemoveAll (f_name f) W1 = (rmerr, W2)"
  shows "cleanupFile f W = ((if rmerr \<noteq> None then rmerr else cerr), f1, W2)"
  using assms File_Close_frame(4) [OF assms(1)]
  by (auto simp: cleanupFile_def split: option.splits)

text \<open>
  \<^verbatim>\<open>Close\<close> on an open writer, in terms of the two calls \<^verbatim>\<open>cleanupFile\<close> makes.
\<close>

lemma Close_open_eq:
  assumes "tempFile w = Some f"
    and "File_Close f W = (cerr, f1, W1)" and "os_RemoveAll (f_name f) W1 = (rmerr, W2)"
  shows "Close w W =
           (if rmerr \<noteq> None then (rmerr, w\<lparr>tempFile := Some f1\<rparr>, W2)
            else if cerr \<noteq> None then (cerr, w\<lparr>tempFile := Some f1\<rparr>, W2)
            else (None, w\<lparr>tempFile := None\<rparr>, W2))"
  using assms(1) cleanupFile_eq [OF assms(2,3)]
  by (auto simp: Close_def split: option.splits)

lemma Close_closed_eq: "Closed w \<Longrightarrow> Close w W = (None, w, W)"
  by (simp add: Close_def Closed_def split: if_splits)

lemma Close_Closed_iff:
  assumes "Close w W = (err, w', W')"
  shows "Closed w' \<longleftrightarrow> err = None"
  using assms
  by (auto simp: Close_def Closed_def split: option.splits prod.splits)

lemma Close_frame:
  assumes "Close w W = (err, w', W')"
  shows "data W' = data W"
    and "(case tempFile w of None \<Rightarrow> True
          | Some f \<Rightarrow> \<not> inside (filepath_Clean (f_name f)) (filepath_Clean q))
         \<Longrightarrow> names W' q = names W q"
proof -
  show "data W' = data W"
    using assms
    by (auto simp: Close_def cleanupFile_def split: option.splits prod.splits
             dest!: File_Close_frame(2) os_RemoveAll_frame(1))
  show "names W' q = names W q"
    if "case tempFile w of None \<Rightarrow> True
        | Some f \<Rightarrow> \<not> inside (filepath_Clean (f_name f)) (filepath_Clean q)"
  proof (cases "tempFile w")
    case None
    with assms show ?thesis by (simp add: Close_def)
  next
    case (Some f)
    obtain cerr f1 W1 where fc: "File_Close f W = (cerr, f1, W1)"
      by (cases "File_Close f W") auto
    obtain rmerr W2 where rm: "os_RemoveAll (f_name f) W1 = (rmerr, W2)"
      by (cases "os_RemoveAll (f_name f) W1") auto
    have "W' = W2"
      using assms Close_open_eq [OF Some fc rm] by (auto split: if_splits)
    moreover have "\<not> inside (filepath_Clean (f_name f)) (filepath_Clean q)"
      using that Some by simp
    ultimately show ?thesis
      using names_cong [OF File_Close_frame(1) [OF fc]] os_RemoveAll_frame(3) [OF rm] by simp
  qed
qed

lemma Write_closed_eq: "Closed w \<Longrightarrow> Write w p W = ((0, Some AlreadyClosed), w, W)"
  by (simp add: Write_def)

lemma Accept_closed_eq: "Closed w \<Longrightarrow> Accept H w W = ((False, Some AlreadyClosed), w, W)"
  by (simp add: Accept_def)

text \<open>
  \<^verbatim>\<open>Accept\<close> on an open writer whose digest is the expected identifier: the error of
  \<^verbatim>\<open>os.Stat\<close> selects the branch.
\<close>

lemma Accept_match_eq:
  assumes "\<not> Closed w" and "hex_EncodeToString (H (hasher w)) = Oid w"
    and "os_Stat (filename w) W = (serr, W1)"
  shows "Accept H w W =
           (if serr \<noteq> None
            then ((True, fst (os_Rename (tempFilename w) (filename w)
                               (snd (snd (File_Close (the (tempFile w)) W1))))),
                  w\<lparr>tempFile := None\<rparr>,
                  snd (os_Rename (tempFilename w) (filename w)
                        (snd (snd (File_Close (the (tempFile w)) W1)))))
            else ((False, fst (Close w W1)), snd (Close w W1)))"
  using assms
  by (auto simp: Accept_def Let_def split: option.splits prod.splits)

section \<open>A run without failures\<close>







section \<open>Evaluation of the examples\<close>

lemmas os_defs = next_fault_def os_MkdirAll_def os_OpenFile_excl_def File_Write_def
  File_Close_def os_Stat_def os_Rename_def os_RemoveAll_def read_file_def names_def
  resolve_def found_def blocked_def make_dirs_def move_tree_def is_reg_def

lemmas path_defs = filepath_Clean_def clean_stack_def clean_step_def rooted_def render_def
  filepath_Dir_def dir_part_def filepath_Base_def dir_form_def ends_in_separator_def
  inside_def starts_with_def mkdir_chain_def

lemmas file_defs = NewWithSuffix_def NewFile_def Closed_def Write_def cleanupFile_def
  Close_def Accept_def mismatch_message_def write_and_accept_def Let_def

lemmas ex_defs = open_writer_def staged_world_def empty_world_def checksum8_def
  sup_bytes_def DefaultSuffix_def hextable_def no_faults_def

text \<open>
  The paths of the examples, cleaned and taken apart.
\<close>

lemma example_paths:
  "filepath_Clean ''objects/f8'' = ''objects/f8''"
  "filepath_Clean ''objects/f8-temp'' = ''objects/f8-temp''"
  "filepath_Clean ''objects/00'' = ''objects/00''"
  "filepath_Clean ''objects/00-temp'' = ''objects/00-temp''"
  "filepath_Clean ''objects'' = ''objects''"
  "filepath_Dir ''objects/f8'' = ''objects''"
  "filepath_Dir ''objects/f8-temp'' = ''objects''"
  "filepath_Dir ''objects/00'' = ''objects''"
  "filepath_Dir ''objects/00-temp'' = ''objects''"
  "mkdir_chain ''objects'' = [''.'', ''objects'']"
  "filepath_Base ''objects/f8'' = ''f8''"
  "filepath_Base ''objects/00'' = ''00''"
  "\<not> dir_form ''objects/f8''" "\<not> dir_form ''objects/f8-temp''"
  "\<not> dir_form ''objects/00''" "\<not> dir_form ''objects/00-temp''"
  "\<not> ends_in_separator ''objects/f8''"
  by (simp_all add: path_defs)

lemma example_inside:
  "\<not> inside ''objects/f8-temp'' ''objects/f8''"
  "\<not> inside ''objects/f8'' ''objects/f8-temp''"
  "inside ''objects/f8'' ''objects/f8''"
  "inside ''objects/f8-temp'' ''objects/f8-temp''"
  "\<not> inside ''objects/f8-temp'' ''objects''"
  "\<not> inside ''objects/f8-temp'' ''.''"
  "\<not> inside ''objects/f8'' ''objects''"
  "\<not> inside ''objects/f8'' ''.''"
  by (simp_all add: inside_def starts_with_def)

lemmas ev = os_defs file_defs ex_defs example_paths example_inside

lemma trailing_separator_paths:
  "filepath_Clean ''objects/f8/'' = ''objects/f8''"
  "filepath_Dir ''objects/f8/'' = ''objects/f8''"
  "filepath_Base ''objects/f8/'' = ''f8''"
  "filepath_Clean ''objects/f8/-temp'' = ''objects/f8/-temp''"
  "filepath_Dir ''objects/f8/-temp'' = ''objects/f8''"
  "filepath_Clean ''objects/f8'' = ''objects/f8''"
  "mkdir_chain ''objects/f8'' = [''.'', ''objects'', ''objects/f8'']"
  "\<not> dir_form ''objects/f8/-temp''"
  "inside ''objects/f8/-temp'' ''objects/f8/-temp''"
  "\<not> inside ''objects/f8/-temp'' ''objects/f8''"
  by (simp_all add: path_defs)

section \<open>The claims\<close>

subsection \<open>C1: write in chunks, then accept\<close>




text \<open>
  The same happens, in an empty world, for a destination that ends in a separator:
  \<^verbatim>\<open>filepath.Dir\<close> is then the destination itself, \<^verbatim>\<open>os.MkdirAll\<close> makes it a
  directory, the staging file is put inside it, and \<^verbatim>\<open>os.Stat\<close> finds the directory.
\<close>

lemma trailing_separator_run:
  "map_sum id run_accept
     (write_and_accept checksum8 ''objects/f8/'' DefaultSuffix [[0x53], [0x55, 0x50]]
        (empty_world []))
   = Inr (False, None)"
  by (simp add: os_defs file_defs ex_defs trailing_separator_paths)

subsection \<open>C2: content mismatch\<close>

text \<open>
  C2. When \<^verbatim>\<open>Accept\<close> is called on an open writer and the hex digest of the bytes written
  differs from the expected identifier, it returns \<open>created = false\<close> and the error whose
  message holds the expected and the actual identifier; the writer and the world are the
  ones it was called with: the staging file stays, and nothing appears at the destination.
\<close>

theorem C2_accept_mismatch:
  assumes "\<not> Closed w" and "hex_EncodeToString (H (hasher w)) \<noteq> Oid w"
  shows "Accept H w W =
           ((False, Some (Errorf (''Content mismatch.  Expected OID '' @ Oid w @ '', got ''
                                   @ hex_EncodeToString (H (hasher w))))), w, W)"
  using assms by (simp add: Accept_def mismatch_message_def)

text \<open>
  The theorem of C2 for a writer that expects \<open>00\<close> and was fed \<open>SUP\<close>.
\<close>

theorem C2_accept_mismatch_witness:
  "\<not> Closed (open_writer ''objects/00'' sup_bytes)
   \<and> hex_EncodeToString (checksum8 (hasher (open_writer ''objects/00'' sup_bytes)))
       \<noteq> Oid (open_writer ''objects/00'' sup_bytes)
   \<and> Accept checksum8 (open_writer ''objects/00'' sup_bytes)
        (staged_world ''objects/00'' sup_bytes [] [])
       = ((False, Some (Errorf ''Content mismatch.  Expected OID 00, got f8'')),
          open_writer ''objects/00'' sup_bytes,
          staged_world ''objects/00'' sup_bytes [] [])"
proof -
  have h1: "\<not> Closed (open_writer ''objects/00'' sup_bytes)"
    by (simp add: ev)
  have h2: "hex_EncodeToString (checksum8 (hasher (open_writer ''objects/00'' sup_bytes)))
              \<noteq> Oid (open_writer ''objects/00'' sup_bytes)"
    by (simp add: ev)
  have sig: "hex_EncodeToString (checksum8 (hasher (open_writer ''objects/00'' sup_bytes))) = ''f8''"
    by (simp add: ev)
  have oid: "Oid (open_writer ''objects/00'' sup_bytes) = ''00''"
    by (simp add: ev)
  show ?thesis
    using h1 h2
      C2_accept_mismatch [where H = checksum8, OF h1 h2,
        of "staged_world ''objects/00'' sup_bytes [] []"]
    by (simp add: sig oid)
qed

subsection \<open>C3: the digest and the staging file\<close>

text \<open>
  C3, as amended. Every \<^verbatim>\<open>Write(p)\<close> on an open writer feeds all of \<open>p\<close> to the
  digest, whatever becomes of the file write; the staging file receives the first \<open>n\<close>
  bytes of \<open>p\<close>, where \<open>n\<close> is the count returned, and \<open>n\<close> is the length of \<open>p\<close>
  when no error is returned. If the digest input and the staging file agreed before the
  call, they agree after it exactly when the write was complete.
\<close>

theorem C3_write_feeds_hasher:
  assumes "tempFile w = Some f" and "Write w p W = ((n, err), w', W')"
  shows "hasher w' = hasher w @ p
         \<and> data W' (f_ino f) = data W (f_ino f) @ take n p
         \<and> n \<le> length p
         \<and> (err = None \<longrightarrow> n = length p)
         \<and> (hasher w = data W (f_ino f) \<longrightarrow>
              (hasher w' = data W' (f_ino f) \<longleftrightarrow> n = length p))"
proof -
  from assms have w': "w' = w\<lparr>hasher := hasher w @ p\<rparr>"
    and fw: "File_Write f p W = ((n, err), W')"
    by (auto simp: Write_def Closed_def Let_def split: prod.splits)
  note fr = File_Write_frame [OF fw]
  show ?thesis
    using w' fr(3-5) by (simp add: take_eq_self_iff)
qed

text \<open>
  The theorem of C3 for a complete write of \<open>UP\<close> after \<open>S\<close>.
\<close>

theorem C3_write_feeds_hasher_witness:
  "tempFile (open_writer ''objects/f8'' [0x53]) = Some \<lparr>f_name = ''objects/f8-temp'', f_ino = 0, f_closed = False\<rparr>
   \<and> fst (Write (open_writer ''objects/f8'' [0x53]) [0x55, 0x50]
            (staged_world ''objects/f8'' [0x53] [] [])) = (2, None)
   \<and> hasher (fst (snd (Write (open_writer ''objects/f8'' [0x53]) [0x55, 0x50]
            (staged_world ''objects/f8'' [0x53] [] [])))) = [0x53, 0x55, 0x50]
   \<and> data (snd (snd (Write (open_writer ''objects/f8'' [0x53]) [0x55, 0x50]
            (staged_world ''objects/f8'' [0x53] [] [])))) 0 = [0x53, 0x55, 0x50]"
proof -
  let ?w = "open_writer ''objects/f8'' [0x53]"
  let ?W = "staged_world ''objects/f8'' [0x53] [] []"
  have h1: "tempFile ?w = Some \<lparr>f_name = ''objects/f8-temp'', f_ino = 0, f_closed = False\<rparr>"
    by (simp add: ev)
  have r: "fst (Write ?w [0x55, 0x50] ?W) = (2, None)"
    by (simp add: ev)
  then have h2: "Write ?w [0x55, 0x50] ?W
                  = ((2, None), fst (snd (Write ?w [0x55, 0x50] ?W)),
                     snd (snd (Write ?w [0x55, 0x50] ?W)))"
    by (simp add: prod_eq_iff)
  have h: "hasher ?w = [0x53]" "data ?W 0 = [0x53]"
    by (simp_all add: ev)
  show ?thesis
    using h1 r C3_write_feeds_hasher [OF h1 h2] h by simp
qed

text \<open>
  C3 as stated fails on a short write: the file takes one byte of \<open>SUP\<close> and the call
  returns \<open>(1, err)\<close>, but the digest has been fed all three bytes.
\<close>

theorem C3_counterexample:
  "fst (Write (open_writer ''objects/f8'' []) sup_bytes
          (staged_world ''objects/f8'' [] [] [Some (SysError 28, 1)]))
     = (1, Some (SysError 28))
   \<and> hasher (fst (snd (Write (open_writer ''objects/f8'' []) sup_bytes
          (staged_world ''objects/f8'' [] [] [Some (SysError 28, 1)]))))
     = [0x53, 0x55, 0x50]
   \<and> data (snd (snd (Write (open_writer ''objects/f8'' []) sup_bytes
          (staged_world ''objects/f8'' [] [] [Some (SysError 28, 1)])))) 0
     = [0x53]"
  by (simp add: ev)

subsection \<open>C4: which outcomes of Accept close the writer\<close>

text \<open>
  C4, as amended. An \<^verbatim>\<open>Accept\<close> call on an open writer leaves the writer closed exactly
  when it reports \<open>created = true\<close> (the rename branch, whether the rename worked or not)
  or returns no error (the duplicate was skipped and the staging file released). From then
  on every \<^verbatim>\<open>Write\<close> and every \<^verbatim>\<open>Accept\<close> returns the already-closed error and
  changes nothing. After a mismatch, or when the release fails, the writer is still open.
\<close>

theorem C4_accept_terminal:
  assumes "\<not> Closed w" and "Accept H w W = ((created, err), w', W')"
  shows "(Closed w' \<longleftrightarrow> created \<or> err = None)
         \<and> (Closed w' \<longrightarrow>
              Write w' p V = ((0, Some AlreadyClosed), w', V)
              \<and> Accept H w' V = ((False, Some AlreadyClosed), w', V))"
proof -
  have "Closed w' \<longleftrightarrow> created \<or> err = None"
  proof (cases "hex_EncodeToString (H (hasher w)) = Oid w")
    case False
    with assms show ?thesis by (auto simp: Accept_def)
  next
    case True
    obtain serr W1 where st: "os_Stat (filename w) W = (serr, W1)"
      by (cases "os_Stat (filename w) W") auto
    show ?thesis
    proof (cases "serr = None")
      case True
      obtain cerr w1 W2 where cl: "Close w W1 = (cerr, w1, W2)"
        by (cases "Close w W1") auto
      with assms Accept_match_eq [of w H, OF assms(1) \<open>hex_EncodeToString (H (hasher w)) = Oid w\<close> st] True
      have "created = False" "err = cerr" "w' = w1" by auto
      with Close_Closed_iff [OF cl] show ?thesis by simp
    next
      case False
      with assms Accept_match_eq [of w H, OF assms(1) True st]
      show ?thesis by (auto simp: Closed_def)
    qed
  qed
  then show ?thesis
    by (simp add: Write_closed_eq Accept_closed_eq)
qed

text \<open>
  The theorem of C4 for an \<^verbatim>\<open>Accept\<close> that renames.
\<close>

theorem C4_accept_terminal_witness:
  "\<not> Closed (open_writer ''objects/f8'' sup_bytes)
   \<and> fst (Accept checksum8 (open_writer ''objects/f8'' sup_bytes)
            (staged_world ''objects/f8'' sup_bytes [] [])) = (True, None)
   \<and> Closed (fst (snd (Accept checksum8 (open_writer ''objects/f8'' sup_bytes)
            (staged_world ''objects/f8'' sup_bytes [] []))))
   \<and> fst (Write (fst (snd (Accept checksum8 (open_writer ''objects/f8'' sup_bytes)
            (staged_world ''objects/f8'' sup_bytes [] [])))) sup_bytes
            (empty_world [])) = (0, Some AlreadyClosed)
   \<and> fst (Accept checksum8 (fst (snd (Accept checksum8 (open_writer ''objects/f8'' sup_bytes)
            (staged_world ''objects/f8'' sup_bytes [] []))))
            (empty_world [])) = (False, Some AlreadyClosed)"
proof -
  let ?w = "open_writer ''objects/f8'' sup_bytes"
  let ?W = "staged_world ''objects/f8'' sup_bytes [] []"
  have h1: "\<not> Closed ?w" by (simp add: ev)
  have r: "fst (Accept checksum8 ?w ?W) = (True, None)"
    by (simp add: ev)
  then have h2: "Accept checksum8 ?w ?W
                  = ((True, None), fst (snd (Accept checksum8 ?w ?W)),
                     snd (snd (Accept checksum8 ?w ?W)))"
    by (simp add: prod_eq_iff)
  show ?thesis
    using h1 r C4_accept_terminal [OF h1 h2, of sup_bytes "empty_world []"] by simp
qed

text \<open>
  C4 as stated fails on a mismatch: after \<^verbatim>\<open>Accept\<close> the writer is not closed, and the
  next \<^verbatim>\<open>Write\<close> goes through to the staging file.
\<close>

theorem C4_counterexample:
  "\<not> Closed (fst (snd (Accept checksum8 (open_writer ''objects/00'' sup_bytes)
                        (staged_world ''objects/00'' sup_bytes [] []))))
   \<and> fst (Write (fst (snd (Accept checksum8 (open_writer ''objects/00'' sup_bytes)
                        (staged_world ''objects/00'' sup_bytes [] []))))
             sup_bytes
             (snd (snd (Accept checksum8 (open_writer ''objects/00'' sup_bytes)
                        (staged_world ''objects/00'' sup_bytes [] [])))))
       = (3, None)"
  by (simp add: ev)

subsection \<open>C5: the existence check\<close>

text \<open>
  C5, as amended. When \<^verbatim>\<open>Accept\<close> is called on an open writer and the digest matches,
  it takes the rename branch (\<open>created = true\<close>) if and only if \<^verbatim>\<open>os.Stat\<close> on the
  destination returns an error, of whatever kind; when the call itself is not made to
  fail, that is if and only if nothing is found at the destination. In the rename branch
  the result is exactly that of \<^verbatim>\<open>os.Rename\<close> from the staging path to the destination,
  after the handle was closed: its error is returned, the world is the one it leaves, the
  writer has lost its handle; and when it returns no error, what was at the staging path
  is at the destination. Otherwise the result is exactly that of \<^verbatim>\<open>Close\<close>, error,
  writer and world: a destination that \<^verbatim>\<open>os.Stat\<close> finds is not an error and nothing
  else is done to it. A failure of \<^verbatim>\<open>os.Stat\<close> other than not-exists is treated as an
  absent destination.
\<close>

theorem C5_accept_branch:
  assumes "\<not> Closed w" and "hex_EncodeToString (H (hasher w)) = Oid w"
    and "os_Stat (filename w) W = (serr, W1)"
    and "Accept H w W = ((created, err), w', W')"
  shows "(created \<longleftrightarrow> serr \<noteq> None)
         \<and> (fst (next_fault W) = None \<longrightarrow> (created \<longleftrightarrow> \<not> found W (filename w)))
         \<and> (created \<longrightarrow>
              (err, W') = os_Rename (tempFilename w) (filename w)
                            (snd (snd (File_Close (the (tempFile w)) W1)))
              \<and> w' = w\<lparr>tempFile := None\<rparr>)
         \<and> (created \<and> err = None \<longrightarrow>
              names W' (filename w) = names W (tempFilename w)
              \<and> names W (tempFilename w) \<noteq> None)
         \<and> (\<not> created \<longrightarrow> (err, w', W') = Close w W1)"
proof -
  let ?W2 = "snd (snd (File_Close (the (tempFile w)) W1))"
  have st: "serr \<noteq> None \<longleftrightarrow> \<not> found W (filename w)" if quiet: "fst (next_fault W) = None"
  proof -
    obtain V where nf: "next_fault W = (None, V)"
      using quiet by (cases "next_fault W") auto
    have "resolve V = resolve W"
      using next_fault_frame(4) [OF nf] by (rule resolve_cong)
    then show ?thesis
      using assms(3) nf by (auto simp: os_Stat_def found_def split: sum.splits)
  qed
  have acc: "created \<longleftrightarrow> serr \<noteq> None"
    and ren: "created \<longrightarrow>
                (err, W') = os_Rename (tempFilename w) (filename w) ?W2
                \<and> w' = w\<lparr>tempFile := None\<rparr>"
    and dup: "\<not> created \<longrightarrow> (err, w', W') = Close w W1"
    using assms(4) Accept_match_eq [of w H, OF assms(1-3)]
    by (auto split: if_splits simp: prod_eq_iff)
  have eff: "names W' (filename w) = names W (tempFilename w)
             \<and> names W (tempFilename w) \<noteq> None" if "created" and "err = None"
  proof -
    have rn: "os_Rename (tempFilename w) (filename w) ?W2 = (None, W')"
      using ren that by simp
    obtain cerr f1 where fc: "File_Close (the (tempFile w)) W1 = (cerr, f1, ?W2)"
      by (cases "File_Close (the (tempFile w)) W1") auto
    have "names ?W2 = names W"
      using names_cong [OF File_Close_frame(1) [OF fc]] names_cong [OF os_Stat_frame(1) [OF assms(3)]]
      by simp
    then show ?thesis using os_Rename_ok(1,2) [OF rn] by simp
  qed
  show ?thesis
    using st acc ren dup eff by blast
qed

text \<open>
  The theorem of C5 in both branches: with a file at the destination, which keeps its
  content, and without one, where the staging file arrives at the destination.
\<close>

theorem C5_accept_branch_witness:
  "\<not> Closed (open_writer ''objects/f8'' sup_bytes)
   \<and> hex_EncodeToString (checksum8 (hasher (open_writer ''objects/f8'' sup_bytes)))
       = Oid (open_writer ''objects/f8'' sup_bytes)
   \<and> fst (next_fault (staged_world ''objects/f8'' sup_bytes [(''objects/f8'', 1)] [])) = None
   \<and> found (staged_world ''objects/f8'' sup_bytes [(''objects/f8'', 1)] []) ''objects/f8''
   \<and> fst (Accept checksum8 (open_writer ''objects/f8'' sup_bytes)
            (staged_world ''objects/f8'' sup_bytes [(''objects/f8'', 1)] [])) = (False, None)
   \<and> read_file (snd (snd (Accept checksum8 (open_writer ''objects/f8'' sup_bytes)
            (staged_world ''objects/f8'' sup_bytes [(''objects/f8'', 1)] []))))
         ''objects/f8'' = Some []
   \<and> fst (next_fault (staged_world ''objects/f8'' sup_bytes [] [])) = None
   \<and> \<not> found (staged_world ''objects/f8'' sup_bytes [] []) ''objects/f8''
   \<and> fst (Accept checksum8 (open_writer ''objects/f8'' sup_bytes)
            (staged_world ''objects/f8'' sup_bytes [] [])) = (True, None)
   \<and> names (snd (snd (Accept checksum8 (open_writer ''objects/f8'' sup_bytes)
            (staged_world ''objects/f8'' sup_bytes [] []))))
         ''objects/f8'' = Some (Reg 0)
   \<and> read_file (snd (snd (Accept checksum8 (open_writer ''objects/f8'' sup_bytes)
            (staged_world ''objects/f8'' sup_bytes [] []))))
         ''objects/f8'' = Some [0x53, 0x55, 0x50]"
proof -
  let ?w = "open_writer ''objects/f8'' sup_bytes"
  let ?D = "staged_world ''objects/f8'' sup_bytes [(''objects/f8'', 1)] []"
  let ?A = "staged_world ''objects/f8'' sup_bytes [] []"
  have h1: "\<not> Closed ?w" by (simp add: ev)
  have h2: "hex_EncodeToString (checksum8 (hasher ?w)) = Oid ?w" by (simp add: ev)
  have sD: "os_Stat (filename ?w) ?D = (fst (os_Stat (filename ?w) ?D), snd (os_Stat (filename ?w) ?D))"
    by simp
  have sA: "os_Stat (filename ?w) ?A = (fst (os_Stat (filename ?w) ?A), snd (os_Stat (filename ?w) ?A))"
    by simp
  have rD: "fst (Accept checksum8 ?w ?D) = (False, None)" by (simp add: ev)
  then have aD: "Accept checksum8 ?w ?D
                  = ((False, None), fst (snd (Accept checksum8 ?w ?D)),
                     snd (snd (Accept checksum8 ?w ?D)))"
    by (simp add: prod_eq_iff)
  have rA: "fst (Accept checksum8 ?w ?A) = (True, None)" by (simp add: ev)
  then have aA: "Accept checksum8 ?w ?A
                  = ((True, None), fst (snd (Accept checksum8 ?w ?A)),
                     snd (snd (Accept checksum8 ?w ?A)))"
    by (simp add: prod_eq_iff)
  have qD: "fst (next_fault ?D) = None" and qA: "fst (next_fault ?A) = None"
    by (simp_all add: ev)
  have fn: "filename ?w = ''objects/f8''" and tn: "tempFilename ?w = ''objects/f8-temp''"
    by (simp_all add: ev)
  have nA: "names ?A ''objects/f8-temp'' = Some (Reg 0)" by (simp add: ev)
  have rfD: "read_file (snd (snd (Accept checksum8 ?w ?D))) ''objects/f8'' = Some []"
    by (simp add: ev)
  have rfA: "read_file (snd (snd (Accept checksum8 ?w ?A))) ''objects/f8''
               = Some [0x53, 0x55, 0x50]"
    by (simp add: ev)
  show ?thesis
    using h1 h2 rD rA qD qA fn tn nA rfD rfA
      C5_accept_branch [where H = checksum8, OF h1 h2 sD aD]
      C5_accept_branch [where H = checksum8, OF h1 h2 sA aA]
    by simp
qed

text \<open>
  C5 as stated fails when \<^verbatim>\<open>os.Stat\<close> fails for another reason (input/output error,
  errno 5) while the destination exists: \<^verbatim>\<open>Accept\<close> renames all the same, returns
  \<open>(true, nil)\<close>, and the empty file that was at the destination is replaced.
\<close>

theorem C5_counterexample:
  "names (staged_world ''objects/f8'' sup_bytes [(''objects/f8'', 1)] [Some (SysError 5, 0)])
      ''objects/f8'' = Some (Reg 1)
   \<and> fst (os_Stat ''objects/f8''
        (staged_world ''objects/f8'' sup_bytes [(''objects/f8'', 1)] [Some (SysError 5, 0)]))
       = Some (SysError 5)
   \<and> fst (Accept checksum8 (open_writer ''objects/f8'' sup_bytes)
        (staged_world ''objects/f8'' sup_bytes [(''objects/f8'', 1)] [Some (SysError 5, 0)]))
       = (True, None)
   \<and> read_file
        (staged_world ''objects/f8'' sup_bytes [(''objects/f8'', 1)] [Some (SysError 5, 0)])
        ''objects/f8'' = Some []
   \<and> read_file (snd (snd (Accept checksum8 (open_writer ''objects/f8'' sup_bytes)
        (staged_world ''objects/f8'' sup_bytes [(''objects/f8'', 1)] [Some (SysError 5, 0)]))))
        ''objects/f8'' = Some [0x53, 0x55, 0x50]"
  by (simp add: ev)

subsection \<open>C6: the destination is there already\<close>

text \<open>
  C6, as amended. For an open writer whose staging file is the one it opened, and whose
  destination is neither the staging path nor below it: when the digest matches and
  \<^verbatim>\<open>os.Stat\<close> finds something at the destination, \<^verbatim>\<open>Accept\<close> returns
  \<open>created = false\<close> with the error of the internal \<^verbatim>\<open>Close\<close>; when that error is nil,
  nothing is left at the staging path and the writer is closed; and in every case the
  content of the destination is what it was.
\<close>

theorem C6_accept_duplicate:
  assumes "tempFile w = Some f" and "f_name f = tempFilename w"
    and "\<not> inside (filepath_Clean (tempFilename w)) (filepath_Clean (filename w))"
    and "hex_EncodeToString (H (hasher w)) = Oid w"
    and "os_Stat (filename w) W = (None, W1)"
    and "Accept H w W = ((created, err), w', W')"
  shows "\<not> created
         \<and> err = fst (Close w W1)
         \<and> (err = None \<longrightarrow> names W' (tempFilename w) = None \<and> Closed w')
         \<and> names W (filename w) \<noteq> None
         \<and> read_file W' (filename w) = read_file W (filename w)"
proof -
  have op: "\<not> Closed w" using assms(1) by (simp add: Closed_def)
  obtain cerr f1 W2 where fc: "File_Close f W1 = (cerr, f1, W2)"
    by (cases "File_Close f W1") auto
  obtain rmerr W3 where rm: "os_RemoveAll (f_name f) W2 = (rmerr, W3)"
    by (cases "os_RemoveAll (f_name f) W2") auto
  have acc: "Accept H w W = ((False, fst (Close w W1)), snd (Close w W1))"
    using Accept_match_eq [of w H, OF op assms(4,5)] by simp
  then have cl: "Close w W1 = (err, w', W')" and nc: "\<not> created"
    using assms(6) by (auto simp: prod_eq_iff)
  have W': "W' = W3"
    using cl Close_open_eq [OF assms(1) fc rm] by (auto split: if_splits)
  have gone: "names W' (tempFilename w) = None" if "err = None"
    using that cl Close_open_eq [OF assms(1) fc rm] os_RemoveAll_frame(4) [OF rm] assms(2)
    by (auto split: if_splits)
  have "names W' (filename w) = names W (filename w)"
    using Close_frame(2) [OF cl, of "filename w"] assms(1-3)
      names_cong [OF os_Stat_frame(1) [OF assms(5)]]
    by simp
  moreover have "data W' = data W"
    using Close_frame(1) [OF cl] os_Stat_frame(2) [OF assms(5)] by simp
  ultimately have "read_file W' (filename w) = read_file W (filename w)"
    by (rule read_file_cong)
  then show ?thesis
    using nc cl gone Close_Closed_iff [OF cl] os_Stat_ok_exists [OF assms(5)] by simp
qed

text \<open>
  The theorem of C6 in the state of \<^verbatim>\<open>TestTempFileCleanup\<close>: an empty file is at the
  destination.
\<close>

theorem C6_accept_duplicate_witness:
  "tempFile (open_writer ''objects/f8'' sup_bytes)
     = Some \<lparr>f_name = ''objects/f8-temp'', f_ino = 0, f_closed = False\<rparr>
   \<and> tempFilename (open_writer ''objects/f8'' sup_bytes) = ''objects/f8-temp''
   \<and> filename (open_writer ''objects/f8'' sup_bytes) = ''objects/f8''
   \<and> \<not> inside (filepath_Clean (tempFilename (open_writer ''objects/f8'' sup_bytes)))
               (filepath_Clean (filename (open_writer ''objects/f8'' sup_bytes)))
   \<and> hex_EncodeToString (checksum8 (hasher (open_writer ''objects/f8'' sup_bytes)))
       = Oid (open_writer ''objects/f8'' sup_bytes)
   \<and> fst (os_Stat ''objects/f8''
            (staged_world ''objects/f8'' sup_bytes [(''objects/f8'', 1)] [])) = None
   \<and> fst (Accept checksum8 (open_writer ''objects/f8'' sup_bytes)
            (staged_world ''objects/f8'' sup_bytes [(''objects/f8'', 1)] [])) = (False, None)
   \<and> names (snd (snd (Accept checksum8 (open_writer ''objects/f8'' sup_bytes)
            (staged_world ''objects/f8'' sup_bytes [(''objects/f8'', 1)] []))))
        ''objects/f8-temp'' = None
   \<and> read_file (snd (snd (Accept checksum8 (open_writer ''objects/f8'' sup_bytes)
            (staged_world ''objects/f8'' sup_bytes [(''objects/f8'', 1)] []))))
        ''objects/f8'' = Some []"
proof -
  let ?w = "open_writer ''objects/f8'' sup_bytes"
  let ?f = "\<lparr>f_name = ''objects/f8-temp'', f_ino = 0, f_closed = False\<rparr>"
  let ?W = "staged_world ''objects/f8'' sup_bytes [(''objects/f8'', 1)] []"
  have h1: "tempFile ?w = Some ?f" by (simp add: ev)
  have t: "tempFilename ?w = ''objects/f8-temp''" and d: "filename ?w = ''objects/f8''"
    by (simp_all add: ev)
  have h2: "f_name ?f = tempFilename ?w" using t by simp
  have h3: "\<not> inside (filepath_Clean (tempFilename ?w)) (filepath_Clean (filename ?w))"
    using t d by (simp add: ev)
  have h4: "hex_EncodeToString (checksum8 (hasher ?w)) = Oid ?w" by (simp add: ev)
  have s: "fst (os_Stat ''objects/f8'' ?W) = None"
    by (simp add: ev)
  then have h5: "os_Stat (filename ?w) ?W = (None, snd (os_Stat (filename ?w) ?W))"
    using d by (simp add: prod_eq_iff)
  have r: "fst (Accept checksum8 ?w ?W) = (False, None)"
    by (simp add: ev)
  then have h6: "Accept checksum8 ?w ?W
                  = ((False, None), fst (snd (Accept checksum8 ?w ?W)),
                     snd (snd (Accept checksum8 ?w ?W)))"
    by (simp add: prod_eq_iff)
  have before: "read_file ?W ''objects/f8'' = Some []"
    by (simp add: ev)
  show ?thesis
    using h1 t d h3 h4 s r before
      C6_accept_duplicate [where H = checksum8, OF h1 h2 h3 h4 h5 h6]
    by simp
qed

text \<open>
  C6 as stated fails when the removal of the staging file fails (errno 13):
  \<^verbatim>\<open>Accept\<close> returns \<open>created = false\<close> with that error, and the staging file is still
  there.
\<close>

theorem C6_counterexample:
  "fst (os_Stat ''objects/f8''
         (staged_world ''objects/f8'' sup_bytes [(''objects/f8'', 1)]
            [None, None, Some (SysError 13, 0)]))
     = None
   \<and> fst (Accept checksum8 (open_writer ''objects/f8'' sup_bytes)
         (staged_world ''objects/f8'' sup_bytes [(''objects/f8'', 1)]
            [None, None, Some (SysError 13, 0)]))
     = (False, Some (SysError 13))
   \<and> read_file (snd (snd (Accept checksum8 (open_writer ''objects/f8'' sup_bytes)
         (staged_world ''objects/f8'' sup_bytes [(''objects/f8'', 1)]
            [None, None, Some (SysError 13, 0)]))))
        ''objects/f8-temp''
     = Some [0x53, 0x55, 0x50]"
  by (simp add: ev)

subsection \<open>C7: Close after a failed rename\<close>

text \<open>
  C7 does not hold of the code. The digest matches, nothing is at the destination, and
  the rename fails (input/output error, errno 5). \<^verbatim>\<open>Accept\<close> has set
  \<^verbatim>\<open>w.tempFile = nil\<close> before the rename, so it returns \<open>(true, err)\<close> with a closed
  writer; the \<^verbatim>\<open>Close\<close> that follows does nothing and returns nil, and the staging file
  is still there with its content.
\<close>

theorem C7_failed_rename_leaves_staging_file:
  "fst (Accept checksum8 (open_writer ''objects/f8'' sup_bytes)
         (staged_world ''objects/f8'' sup_bytes [] [None, None, Some (SysError 5, 0)]))
     = (True, Some (SysError 5))
   \<and> fst (Close
        (fst (snd (Accept checksum8 (open_writer ''objects/f8'' sup_bytes)
           (staged_world ''objects/f8'' sup_bytes [] [None, None, Some (SysError 5, 0)]))))
        (snd (snd (Accept checksum8 (open_writer ''objects/f8'' sup_bytes)
           (staged_world ''objects/f8'' sup_bytes [] [None, None, Some (SysError 5, 0)])))))
     = None
   \<and> read_file (snd (snd (Close
        (fst (snd (Accept checksum8 (open_writer ''objects/f8'' sup_bytes)
           (staged_world ''objects/f8'' sup_bytes [] [None, None, Some (SysError 5, 0)]))))
        (snd (snd (Accept checksum8 (open_writer ''objects/f8'' sup_bytes)
           (staged_world ''objects/f8'' sup_bytes [] [None, None, Some (SysError 5, 0)])))))))
        ''objects/f8-temp''
     = Some [0x53, 0x55, 0x50]"
  by (simp add: ev)

subsection \<open>C8: which errors reach the caller\<close>

text \<open>
  C8, as amended. On an open writer, \<^verbatim>\<open>Write\<close> returns the error of the file write;
  \<^verbatim>\<open>Close\<close> returns the error of the removal if there is one, and the error of closing
  the handle only otherwise; \<^verbatim>\<open>Accept\<close>, when the digest matches, returns the error of
  the rename if \<^verbatim>\<open>os.Stat\<close> failed, and the error of \<^verbatim>\<open>Close\<close> if it did not. The
  error of \<^verbatim>\<open>os.Stat\<close> itself and, in the rename branch, the error of closing the
  handle are not returned.
\<close>

theorem C8_errors_returned:
  assumes "tempFile w = Some f"
  shows "snd (fst (Write w p W)) = snd (fst (File_Write f p W))
         \<and> fst (Close w W) =
             (if fst (os_RemoveAll (f_name f) (snd (snd (File_Close f W)))) \<noteq> None
              then fst (os_RemoveAll (f_name f) (snd (snd (File_Close f W))))
              else fst (File_Close f W))
         \<and> (hex_EncodeToString (H (hasher w)) = Oid w \<longrightarrow>
              snd (fst (Accept H w W)) =
                (if fst (os_Stat (filename w) W) \<noteq> None
                 then fst (os_Rename (tempFilename w) (filename w)
                            (snd (snd (File_Close f (snd (os_Stat (filename w) W))))))
                 else fst (Close w (snd (os_Stat (filename w) W)))))"
proof -
  have op: "\<not> Closed w" using assms by (simp add: Closed_def)
  have wr: "snd (fst (Write w p W)) = snd (fst (File_Write f p W))"
    using assms op by (simp add: Write_def Let_def split: prod.splits)
  obtain cerr f1 W1 where fc: "File_Close f W = (cerr, f1, W1)"
    by (cases "File_Close f W") auto
  obtain rmerr W2 where rm: "os_RemoveAll (f_name f) W1 = (rmerr, W2)"
    by (cases "os_RemoveAll (f_name f) W1") auto
  have cl: "fst (Close w W) =
             (if fst (os_RemoveAll (f_name f) (snd (snd (File_Close f W)))) \<noteq> None
              then fst (os_RemoveAll (f_name f) (snd (snd (File_Close f W))))
              else fst (File_Close f W))"
    using Close_open_eq [OF assms fc rm] fc rm by simp
  obtain serr V1 where st: "os_Stat (filename w) W = (serr, V1)"
    by (cases "os_Stat (filename w) W") auto
  have ac: "snd (fst (Accept H w W)) =
                (if fst (os_Stat (filename w) W) \<noteq> None
                 then fst (os_Rename (tempFilename w) (filename w)
                            (snd (snd (File_Close f (snd (os_Stat (filename w) W))))))
                 else fst (Close w (snd (os_Stat (filename w) W))))"
    if "hex_EncodeToString (H (hasher w)) = Oid w"
    using Accept_match_eq [of w H, OF op that st] st assms by simp
  show ?thesis
    using wr cl ac by simp
qed

text \<open>
  The theorem of C8 for a failing write, a failing removal and a failing rename.
\<close>

theorem C8_errors_returned_witness:
  "tempFile (open_writer ''objects/f8'' sup_bytes)
     = Some \<lparr>f_name = ''objects/f8-temp'', f_ino = 0, f_closed = False\<rparr>
   \<and> snd (fst (Write (open_writer ''objects/f8'' sup_bytes) [0x21]
        (staged_world ''objects/f8'' sup_bytes [] [Some (SysError 28, 0)])))
       = Some (SysError 28)
   \<and> fst (Close (open_writer ''objects/f8'' sup_bytes)
        (staged_world ''objects/f8'' sup_bytes [] [None, Some (SysError 13, 0)]))
       = Some (SysError 13)
   \<and> snd (fst (Accept checksum8 (open_writer ''objects/f8'' sup_bytes)
        (staged_world ''objects/f8'' sup_bytes [] [None, None, Some (SysError 5, 0)])))
       = Some (SysError 5)"
proof -
  let ?w = "open_writer ''objects/f8'' sup_bytes"
  let ?f = "\<lparr>f_name = ''objects/f8-temp'', f_ino = 0, f_closed = False\<rparr>"
  have h1: "tempFile ?w = Some ?f" by (simp add: ev)
  have h2: "hex_EncodeToString (checksum8 (hasher ?w)) = Oid ?w" by (simp add: ev)
  have a: "snd (fst (File_Write ?f [0x21]
                  (staged_world ''objects/f8'' sup_bytes [] [Some (SysError 28, 0)])))
             = Some (SysError 28)"
    by (simp add: ev)
  have b: "fst (os_RemoveAll (f_name ?f) (snd (snd (File_Close ?f
                  (staged_world ''objects/f8'' sup_bytes [] [None, Some (SysError 13, 0)])))))
             = Some (SysError 13)"
    by (simp add: ev)
  have c: "fst (os_Stat (filename ?w)
                  (staged_world ''objects/f8'' sup_bytes [] [None, None, Some (SysError 5, 0)]))
             = Some ErrNotExist"
    by (simp add: ev)
  have d: "fst (os_Rename (tempFilename ?w) (filename ?w) (snd (snd (File_Close ?f
             (snd (os_Stat (filename ?w)
                  (staged_world ''objects/f8'' sup_bytes [] [None, None, Some (SysError 5, 0)])))))))
             = Some (SysError 5)"
    by (simp add: ev)
  show ?thesis
    using h1 h2 a b c d
      C8_errors_returned [where H = checksum8, OF h1, of "[0x21]"
        "staged_world ''objects/f8'' sup_bytes [] [Some (SysError 28, 0)]"]
      C8_errors_returned [where H = checksum8, OF h1, of "[0x21]"
        "staged_world ''objects/f8'' sup_bytes [] [None, Some (SysError 13, 0)]"]
      C8_errors_returned [where H = checksum8, OF h1, of "[0x21]"
        "staged_world ''objects/f8'' sup_bytes [] [None, None, Some (SysError 5, 0)]"]
    by simp
qed

text \<open>
  C8 as stated fails in the rename branch of \<^verbatim>\<open>Accept\<close>: closing the staging handle
  fails (errno 5), the rename works, and \<^verbatim>\<open>Accept\<close> returns \<open>(true, nil)\<close>.
\<close>

theorem C8_counterexample:
  "fst (File_Close (the (tempFile (open_writer ''objects/f8'' sup_bytes)))
         (snd (os_Stat ''objects/f8''
            (staged_world ''objects/f8'' sup_bytes [] [None, Some (SysError 5, 0)]))))
     = Some (SysError 5)
   \<and> fst (Accept checksum8 (open_writer ''objects/f8'' sup_bytes)
         (staged_world ''objects/f8'' sup_bytes [] [None, Some (SysError 5, 0)]))
     = (True, None)"
  by (simp add: ev)

subsection \<open>C9: Close on a closed writer, and Closed after Close\<close>

text \<open>
  C9, as amended. \<^verbatim>\<open>Close\<close> on a closed writer changes nothing and returns nil. After
  a \<^verbatim>\<open>Close\<close> call the writer is closed exactly when the call returned nil. A closed
  writer stays closed: \<^verbatim>\<open>Write\<close>, \<^verbatim>\<open>Accept\<close> and \<^verbatim>\<open>Close\<close> return it as it is.
\<close>

theorem C9_close_idempotent:
  "(Closed w \<longrightarrow> Close w W = (None, w, W))
   \<and> (Closed (fst (snd (Close w W))) \<longleftrightarrow> fst (Close w W) = None)
   \<and> (Closed w \<longrightarrow>
        fst (snd (Write w p V)) = w \<and> fst (snd (Accept H w V)) = w
        \<and> fst (snd (Close w V)) = w)"
proof -
  obtain err w' W' where cl: "Close w W = (err, w', W')"
    by (cases "Close w W") auto
  have "Closed (fst (snd (Close w W))) \<longleftrightarrow> fst (Close w W) = None"
    using Close_Closed_iff [OF cl] cl by simp
  then show ?thesis
    by (simp add: Close_closed_eq Write_closed_eq Accept_closed_eq)
qed

text \<open>
  The theorem of C9 for a closed writer, and for an open one whose cleanup works.
\<close>

theorem C9_close_idempotent_witness:
  "Closed ((open_writer ''objects/f8'' sup_bytes)\<lparr>tempFile := None\<rparr>)
   \<and> Close ((open_writer ''objects/f8'' sup_bytes)\<lparr>tempFile := None\<rparr>)
        (staged_world ''objects/f8'' sup_bytes [] [Some (SysError 13, 0)])
       = (None, (open_writer ''objects/f8'' sup_bytes)\<lparr>tempFile := None\<rparr>,
          staged_world ''objects/f8'' sup_bytes [] [Some (SysError 13, 0)])
   \<and> fst (Close (open_writer ''objects/f8'' sup_bytes)
        (staged_world ''objects/f8'' sup_bytes [] [])) = None
   \<and> Closed (fst (snd (Close (open_writer ''objects/f8'' sup_bytes)
        (staged_world ''objects/f8'' sup_bytes [] []))))"
proof -
  let ?w = "open_writer ''objects/f8'' sup_bytes"
  have c: "Closed (?w\<lparr>tempFile := None\<rparr>)" by (simp add: Closed_def)
  have r: "fst (Close ?w (staged_world ''objects/f8'' sup_bytes [] [])) = None"
    by (simp add: ev)
  show ?thesis
    using c r
      C9_close_idempotent [of "?w\<lparr>tempFile := None\<rparr>"
        "staged_world ''objects/f8'' sup_bytes [] [Some (SysError 13, 0)]"]
      C9_close_idempotent [of ?w "staged_world ''objects/f8'' sup_bytes [] []"]
    by simp
qed

text \<open>
  C9 as stated fails when the removal of the staging file fails (errno 13): \<^verbatim>\<open>Close\<close>
  returns the error and the writer is not closed.
\<close>

theorem C9_counterexample:
  "fst (Close (open_writer ''objects/f8'' sup_bytes)
         (staged_world ''objects/f8'' sup_bytes [] [None, Some (SysError 13, 0)]))
     = Some (SysError 13)
   \<and> \<not> Closed (fst (snd (Close (open_writer ''objects/f8'' sup_bytes)
         (staged_world ''objects/f8'' sup_bytes [] [None, Some (SysError 13, 0)]))))"
  by (simp add: ev)

subsection \<open>C10: the two errors of cleanup\<close>

text \<open>
  C10. When \<^verbatim>\<open>Close\<close> cleans up an open writer, the error of removing the staging file
  comes first: if the removal fails, its error is returned, whatever closing the handle
  returned; the error of closing the handle is returned only when the removal works. After
  a cleanup that returned an error the writer is not closed, so the next \<^verbatim>\<open>Close\<close>
  runs the cleanup again: if that removal is not made to fail, the staging path is free
  afterwards.
\<close>

theorem C10_cleanup_error_precedence:
  assumes "tempFile w = Some f"
    and "File_Close f W = (cerr, f1, W1)" and "os_RemoveAll (f_name f) W1 = (rmerr, W2)"
    and "Close w W = (err, w', W')"
  shows "(rmerr \<noteq> None \<longrightarrow> err = rmerr)
         \<and> (rmerr = None \<longrightarrow> err = cerr)
         \<and> (err \<noteq> None \<longrightarrow> \<not> Closed w')
         \<and> (err \<noteq> None \<and> fst (next_fault V) = None \<longrightarrow>
              names (snd (snd (Close w' V))) (f_name f) = None)"
proof -
  note eq = Close_open_eq [OF assms(1-3)]
  have errs: "(rmerr \<noteq> None \<longrightarrow> err = rmerr) \<and> (rmerr = None \<longrightarrow> err = cerr)"
    using eq assms(4) by (auto split: if_splits)
  have w': "w' = w\<lparr>tempFile := Some f1\<rparr>" if "err \<noteq> None"
    using that eq assms(4) by (auto split: if_splits)
  have f1: "f_closed f1" "f_name f1 = f_name f"
    using File_Close_frame [OF assms(2)] by simp_all
  have retry: "names (snd (snd (Close w' V))) (f_name f) = None"
    if ne: "err \<noteq> None" and quiet: "fst (next_fault V) = None"
  proof -
    have fc: "File_Close f1 V = (Some ErrClosed, f1, V)"
      using f1 by (simp add: File_Close_def)
    obtain V2 where rm: "os_RemoveAll (f_name f1) V = (None, V2)"
      using os_RemoveAll_quiet [OF quiet, of "f_name f1"]
      by (cases "os_RemoveAll (f_name f1) V") auto
    have "Close w' V = (Some ErrClosed, w'\<lparr>tempFile := Some f1\<rparr>, V2)"
      using Close_open_eq [of w' f1 V "Some ErrClosed" f1 V None V2] w' [OF ne] fc rm by simp
    then show ?thesis using os_RemoveAll_frame(4) [OF rm] f1 by simp
  qed
  show ?thesis
    using errs w' retry by (auto simp: Closed_def)
qed

text \<open>
  The theorem of C10 where closing the handle fails with errno 5 and the removal with
  errno 13, and the removal works at the second \<^verbatim>\<open>Close\<close>.
\<close>

theorem C10_cleanup_error_precedence_witness:
  "tempFile (open_writer ''objects/f8'' sup_bytes)
     = Some \<lparr>f_name = ''objects/f8-temp'', f_ino = 0, f_closed = False\<rparr>
   \<and> fst (File_Close \<lparr>f_name = ''objects/f8-temp'', f_ino = 0, f_closed = False\<rparr>
        (staged_world ''objects/f8'' sup_bytes []
           [Some (SysError 5, 0), Some (SysError 13, 0)])) = Some (SysError 5)
   \<and> fst (os_RemoveAll ''objects/f8-temp''
        (snd (snd (File_Close \<lparr>f_name = ''objects/f8-temp'', f_ino = 0, f_closed = False\<rparr>
        (staged_world ''objects/f8'' sup_bytes []
           [Some (SysError 5, 0), Some (SysError 13, 0)]))))) = Some (SysError 13)
   \<and> fst (Close (open_writer ''objects/f8'' sup_bytes)
        (staged_world ''objects/f8'' sup_bytes []
           [Some (SysError 5, 0), Some (SysError 13, 0)])) = Some (SysError 13)
   \<and> \<not> Closed (fst (snd (Close (open_writer ''objects/f8'' sup_bytes)
        (staged_world ''objects/f8'' sup_bytes []
           [Some (SysError 5, 0), Some (SysError 13, 0)]))))
   \<and> names (snd (snd (Close
        (fst (snd (Close (open_writer ''objects/f8'' sup_bytes)
           (staged_world ''objects/f8'' sup_bytes []
              [Some (SysError 5, 0), Some (SysError 13, 0)]))))
        (staged_world ''objects/f8'' sup_bytes [] [])))) ''objects/f8-temp'' = None"
proof -
  let ?w = "open_writer ''objects/f8'' sup_bytes"
  let ?f = "\<lparr>f_name = ''objects/f8-temp'', f_ino = 0, f_closed = False\<rparr>"
  let ?W = "staged_world ''objects/f8'' sup_bytes []
              [Some (SysError 5, 0), Some (SysError 13, 0)]"
  let ?V = "staged_world ''objects/f8'' sup_bytes [] []"
  have h1: "tempFile ?w = Some ?f" by (simp add: ev)
  have a: "fst (File_Close ?f ?W) = Some (SysError 5)"
    by (simp add: ev)
  then have h2: "File_Close ?f ?W
                  = (Some (SysError 5), fst (snd (File_Close ?f ?W)), snd (snd (File_Close ?f ?W)))"
    by (simp add: prod_eq_iff)
  have b: "fst (os_RemoveAll ''objects/f8-temp'' (snd (snd (File_Close ?f ?W))))
             = Some (SysError 13)"
    by (simp add: ev)
  then have h3: "os_RemoveAll (f_name ?f) (snd (snd (File_Close ?f ?W)))
                  = (Some (SysError 13),
                     snd (os_RemoveAll (f_name ?f) (snd (snd (File_Close ?f ?W)))))"
    by (simp add: prod_eq_iff)
  have h4: "Close ?w ?W = (fst (Close ?w ?W), fst (snd (Close ?w ?W)), snd (snd (Close ?w ?W)))"
    by simp
  have q: "fst (next_fault ?V) = None" by (simp add: ev)
  show ?thesis
    using h1 a b q C10_cleanup_error_precedence [OF h1 h2 h3 h4, of ?V]
    by simp
qed

end
